theory Spec2Isabelle
  imports Main "HOL-Library.AList"
begin

section \<open>The dnfdaemon server base class, embedded in HOL\<close>

text \<open>
  The Python module \<^verbatim>\<open>python/dnfdaemon/server/__init__.py\<close> defines the class
  \<^verbatim>\<open>DnfDaemonBase\<close>: a stateful wrapper around a handle of the dnf library. The
  embedding passes the object's state explicitly (record \<open>daemon\<close>), returns Python
  exceptions as values (\<open>error + 'a\<close>, \<open>Inl\<close> the exception), logs every signal and
  outward call in the field \<open>events\<close>, and takes the behaviour of the wrapped library as a
  parameter (record \<open>dnf_lib\<close>).

  Naming: Isabelle names cannot start with an underscore, so a leading underscore of the
  source is written \<open>priv_\<close> (\<^verbatim>\<open>_base\<close> is \<open>priv_base\<close>, \<^verbatim>\<open>_get_po\<close> is
  \<open>priv_get_po\<close>); \<^verbatim>\<open>id\<close>, \<^verbatim>\<open>size\<close> and \<^verbatim>\<open>set_option\<close> are HOL constants and are
  written \<open>repoid\<close>, \<open>size_pkg\<close> and \<open>set_option_cfg\<close>; the keys of the dictionary
  \<^verbatim>\<open>gpg_info\<close> carry the prefix \<open>gpg_\<close>.
\<close>

subsection \<open>Python strings\<close>

text \<open>\<^verbatim>\<open>sep.join(values)\<close>\<close>

fun join :: "string \<Rightarrow> string list \<Rightarrow> string" where
  "join sep [] = []"
| "join sep [x] = x"
| "join sep (x # y # ys) = x @ sep @ join sep (y # ys)"

text \<open>
  \<^verbatim>\<open>s.split(c)\<close> for a separator of one character: the pieces between the separators,
  empty pieces kept, so the result has one element more than \<open>s\<close> has separators.
\<close>

fun split :: "char \<Rightarrow> string \<Rightarrow> string list" where
  "split c [] = [[]]"
| "split c (x # xs) =
     (if x = c then [] # split c xs
      else (case split c xs of [] \<Rightarrow> [[x]] | w # ws \<Rightarrow> (x # w) # ws))"

text \<open>\<^verbatim>\<open>s.startswith(p)\<close>\<close>

definition startswith :: "string \<Rightarrow> string \<Rightarrow> bool" where
  "startswith s p = (take (length p) s = p)"

text \<open>\<^verbatim>\<open>str(n)\<close> for an integer: decimal digits, a minus sign when negative.\<close>

definition digit_chars :: string where
  "digit_chars = ''0123456789''"

fun str_nat :: "nat \<Rightarrow> string" where
  "str_nat n =
     (if n < 10 then [digit_chars ! n]
      else str_nat (n div 10) @ [digit_chars ! (n mod 10)])"

declare str_nat.simps [simp del]

definition str_int :: "int \<Rightarrow> string" where
  "str_int i = (if i < 0 then CHR ''-'' # str_nat (nat (- i)) else str_nat (nat i))"

subsection \<open>JSON values and \<^verbatim>\<open>json.dumps\<close>\<close>

text \<open>
  The values the daemon hands to \<^verbatim>\<open>json.dumps\<close>. A tuple is serialised like a list.
  \<open>JFloat n\<close> is the float \<^verbatim>\<open>float(n)\<close> of an integer \<open>n\<close>.
\<close>

datatype json =
    JNone
  | JBool bool
  | JInt int
  | JFloat int
  | JStr string
  | JList "json list"
  | JDict "(string \<times> json) list"

definition hex_chars :: string where
  "hex_chars = ''0123456789abcdef''"

text \<open>
  The encoder's string escapes (\<^verbatim>\<open>ensure_ascii\<close> is on by default): quote and backslash
  get a backslash, the five named control characters their letter, every other character
  outside space .. tilde its \<^verbatim>\<open>\u00XX\<close> form.
\<close>

definition esc_char :: "char \<Rightarrow> string" where
  "esc_char c =
     (if c = CHR 0x22 then [CHR 0x5C, CHR 0x22]
      else if c = CHR 0x5C then [CHR 0x5C, CHR 0x5C]
      else if c = CHR 0x0A then [CHR 0x5C, CHR ''n'']
      else if c = CHR 0x0D then [CHR 0x5C, CHR ''r'']
      else if c = CHR 0x09 then [CHR 0x5C, CHR ''t'']
      else if c = CHR 0x08 then [CHR 0x5C, CHR ''b'']
      else if c = CHR 0x0C then [CHR 0x5C, CHR ''f'']
      else if (of_char c :: nat) < 32 \<or> 126 < (of_char c :: nat)
        then [CHR 0x5C, CHR ''u'', CHR ''0'', CHR ''0'',
              hex_chars ! ((of_char c :: nat) div 16), hex_chars ! ((of_char c :: nat) mod 16)]
      else [c])"

definition quote :: "string \<Rightarrow> string" where
  "quote s = CHR 0x22 # concat (map esc_char s) @ [CHR 0x22]"

text \<open>
  \<^verbatim>\<open>json.dumps\<close> with its default separators. A float \<^verbatim>\<open>float(n)\<close> prints as the
  integer followed by \<^verbatim>\<open>.0\<close>, which is Python's output for every float of an integer
  below \<open>10^16\<close> (package sizes are); the exponent form of larger floats is not modelled.
\<close>

fun json_dumps :: "json \<Rightarrow> string" where
  "json_dumps JNone = ''null''"
| "json_dumps (JBool b) = (if b then ''true'' else ''false'')"
| "json_dumps (JInt i) = str_int i"
| "json_dumps (JFloat i) = str_int i @ ''.0''"
| "json_dumps (JStr s) = quote s"
| "json_dumps (JList xs) = ''['' @ join '', '' (map json_dumps xs) @ '']''"
| "json_dumps (JDict kvs) =
     ''{'' @ join '', '' (map (\<lambda>kv. quote (fst kv) @ '': '' @ json_dumps (snd kv)) kvs) @ ''}''"

text \<open>\<^verbatim>\<open>NONE = json.dumps(None)\<close>\<close>

definition NONE :: string where
  "NONE = json_dumps JNone"

subsection \<open>The objects of the wrapped library\<close>

text \<open>
  The value of a Python attribute: data that \<^verbatim>\<open>json.dumps\<close> serialises, or an object
  (a method, a query, a dependency) that it refuses with \<^verbatim>\<open>TypeError\<close>.
\<close>

datatype attr_val = Data json | Opaque

text \<open>
  A package of the library, with the attributes the daemon reads by name. \<open>other_attrs\<close>
  holds the remaining attributes (\<^verbatim>\<open>summary\<close>, \<^verbatim>\<open>description\<close>, methods, ...) for
  \<^verbatim>\<open>hasattr\<close> and \<^verbatim>\<open>getattr\<close>. \<open>requires\<close> lists the dependencies as \<^verbatim>\<open>str(req)\<close>.
\<close>

record pkg =
  name :: string
  epoch :: int
  version :: string
  release :: string
  arch :: string
  reponame :: string
  ui_from_repo :: string
  size_pkg :: int
  files :: "string list"
  requires :: "string list"
  other_attrs :: "(string \<times> attr_val) list"

text \<open>\<^verbatim>\<open>getattr(po, attr)\<close>; \<open>None\<close> when \<^verbatim>\<open>hasattr(po, attr)\<close> is false.\<close>

definition pkg_getattr :: "pkg \<Rightarrow> string \<Rightarrow> attr_val option" where
  "pkg_getattr po attr =
     (if attr = ''name'' then Some (Data (JStr (name po)))
      else if attr = ''epoch'' then Some (Data (JInt (epoch po)))
      else if attr = ''version'' then Some (Data (JStr (version po)))
      else if attr = ''release'' then Some (Data (JStr (release po)))
      else if attr = ''arch'' then Some (Data (JStr (arch po)))
      else if attr = ''reponame'' then Some (Data (JStr (reponame po)))
      else if attr = ''ui_from_repo'' then Some (Data (JStr (ui_from_repo po)))
      else if attr = ''size'' then Some (Data (JInt (size_pkg po)))
      else if attr = ''files'' then Some (Data (JList (map JStr (files po))))
      else map_of (other_attrs po) attr)"

text \<open>
  The operation types of \<^verbatim>\<open>dnf.transaction\<close> that the source names (the keys of
  \<^verbatim>\<open>_ACTIVE_DCT\<close>), and a transaction item.
\<close>

datatype op_type = DOWNGRADE | ERASE | INSTALL | REINSTALL | UPGRADE

record tsi =
  op_type :: op_type
  installed :: "pkg option"
  erased :: "pkg option"
  obsoleted :: "pkg list"

text \<open>A transaction of the history database; \<open>end_timestamp\<close> in seconds since the epoch.\<close>

record hist_trans =
  tid :: int
  end_timestamp :: "int option"

text \<open>
  A repository: its id, whether it is enabled, and its configuration attributes
  (\<^verbatim>\<open>hasattr(repo, option)\<close> is \<open>option \<in> dom (repo_attrs repo)\<close>).
\<close>

record repo =
  repoid :: string
  enabled :: bool
  repo_attrs :: "string \<rightharpoonup> json"

text \<open>
  The handle \<^verbatim>\<open>backend.DnfBase\<close> (a \<^verbatim>\<open>dnf.Base\<close>): its configuration \<open>conf\<close> as a map
  from attribute names to values, its repositories, the sack (\<open>None\<close> until it is loaded),
  the current transaction (\<open>None\<close> until the goal is resolved) and the history list that
  \<^verbatim>\<open>history.old(complete_transactions_only=False)\<close> returns.
\<close>

record dnf_base =
  conf :: "string \<rightharpoonup> json"
  repos :: "repo list"
  sack :: "pkg list option"
  transaction :: "tsi list option"
  history :: "hist_trans list"

text \<open>
  The exceptions of \<^verbatim>\<open>dnf.exceptions\<close> that the library raises: a \<^verbatim>\<open>DownloadError\<close>
  with its \<^verbatim>\<open>errmap\<close> (a dictionary from file names to lists of messages; \<open>None\<close>
  when it is not a dictionary) and its text \<^verbatim>\<open>str(e)\<close>, or any other
  \<^verbatim>\<open>dnf.exceptions.Error\<close> with its text.
\<close>

datatype dnf_error =
    DownloadError "(string \<times> string list) list option" string
  | Error string

text \<open>
  The exceptions of the daemon: Python's own, the module's \<^verbatim>\<open>GPGError\<close> with its
  message, and those of the library.
\<close>

datatype error =
    TypeError
  | ValueError
  | AttributeError
  | KeyError
  | OverflowError
  | OSError
  | GPGError string
  | Dnf dnf_error

subsection \<open>The daemon object\<close>

text \<open>Signals sent and calls made to the outside, in the order they happen.\<close>

datatype event =
    TransactionEvent string json
  | GPGImport string string string string int
  | ErrorMessage string
  | BaseClose
  | MainloopQuit

record daemon =
  priv_lock :: "string option"
  priv_base :: "dnf_base option"
  priv_can_quit :: bool
  priv_is_working :: bool
  priv_watchdog_count :: int
  priv_watchdog_disabled :: bool
  priv_timeout_idle :: int
  priv_timeout_locked :: int
  priv_obsoletes_list :: "pkg list option"
  priv_gpg_confirm :: "string \<rightharpoonup> bool"
  priv_config_options :: "(string \<times> json) list"
  priv_enabled_repos :: "string list"
  events :: "event list"

text \<open>\<^verbatim>\<open>DnfDaemonBase.__init__\<close>\<close>

definition init :: daemon where
  "init = \<lparr> priv_lock = None, priv_base = None, priv_can_quit = True,
            priv_is_working = False, priv_watchdog_count = 0,
            priv_watchdog_disabled = False, priv_timeout_idle = 20,
            priv_timeout_locked = 600, priv_obsoletes_list = None,
            priv_gpg_confirm = Map.empty, priv_config_options = [],
            priv_enabled_repos = [], events = [] \<rparr>"

text \<open>
  The argument \<^verbatim>\<open>gpg_info\<close> of the key import callback, a dictionary with the keys
  \<^verbatim>\<open>po\<close>, \<^verbatim>\<open>userid\<close>, \<^verbatim>\<open>hexkeyid\<close>, \<^verbatim>\<open>keyurl\<close>, \<^verbatim>\<open>fingerprint\<close> and
  \<^verbatim>\<open>timestamp\<close>.
\<close>

record gpg_info =
  gpg_po :: pkg
  gpg_userid :: string
  gpg_hexkeyid :: string
  gpg_keyurl :: string
  gpg_fingerprint :: string
  gpg_timestamp :: int

text \<open>
  A \<^verbatim>\<open>datetime\<close> without time zone, as \<^verbatim>\<open>datetime.now()\<close> and
  \<^verbatim>\<open>datetime.fromtimestamp(t)\<close> return it: a date and time of the local wall clock,
  counted in microseconds from a fixed date on that clock.
\<close>

type_synonym datetime = int

text \<open>
  The wrapped library, as the daemon sees it. \<open>DnfBase\<close> is the handle that
  \<^verbatim>\<open>backend.DnfBase(self)\<close> constructs; \<open>fill_sack\<close> the packages that loading the sack
  finds for a handle; \<open>download_packages\<close> and \<open>do_transaction\<close> the exception of the
  library that a download or a transaction run ends with, if any; \<open>sig_check_pkg\<close> the
  pair that \<^verbatim>\<open>_sig_check_pkg\<close> returns; \<open>get_key_for_package\<close> runs the key import for a package
  with the daemon's callback and returns the text of the \<^verbatim>\<open>dnf.exceptions.Error\<close> it
  ends with, if any; \<open>loads\<close> is \<^verbatim>\<open>json.loads\<close> (\<open>None\<close> when it raises);
  \<open>fromtimestamp\<close> is \<^verbatim>\<open>datetime.fromtimestamp\<close>, the local date and time of a
  timestamp in the time zone of the machine, or the exception it raises for a timestamp
  that it cannot convert (\<^verbatim>\<open>OverflowError\<close>, \<^verbatim>\<open>OSError\<close>, \<^verbatim>\<open>ValueError\<close>);
  \<open>isoformat\<close> is the method \<^verbatim>\<open>isoformat()\<close> of such a date and time. The others serve the
  pseudo attributes: the packages \<^verbatim>\<open>query.upgrades()\<close> and
  \<^verbatim>\<open>packages.obsoletes\<close> return, the latest providers of a dependency, the order
  of two packages by epoch, version and release (negative, zero, positive), and the
  advisories of \<^verbatim>\<open>backend.UpdateInfo\<close>.
\<close>

record dnf_lib =
  DnfBase :: dnf_base
  fill_sack :: "dnf_base \<Rightarrow> pkg list"
  download_packages :: "dnf_base \<Rightarrow> pkg list \<Rightarrow> dnf_error option"
  do_transaction :: "dnf_base \<Rightarrow> dnf_error option"
  sig_check_pkg :: "dnf_base \<Rightarrow> pkg \<Rightarrow> int \<times> string"
  get_key_for_package ::
    "pkg \<Rightarrow> (gpg_info \<Rightarrow> daemon \<Rightarrow> (error + bool) \<times> daemon) \<Rightarrow> daemon
       \<Rightarrow> string option \<times> daemon"
  loads :: "string \<Rightarrow> json option"
  fromtimestamp :: "int \<Rightarrow> error + datetime"
  isoformat :: "datetime \<Rightarrow> string"
  upgrades :: "dnf_base \<Rightarrow> pkg list"
  obsoletes :: "dnf_base \<Rightarrow> pkg list"
  providers :: "dnf_base \<Rightarrow> string \<Rightarrow> pkg list"
  evr_cmp :: "pkg \<Rightarrow> pkg \<Rightarrow> int"
  advisories_list :: "pkg \<Rightarrow> json"

subsection \<open>The lazily built handle\<close>

text \<open>
  Modelled from the spec: \<^verbatim>\<open>backend.DnfBase.setup_base\<close>, a method of the handle's
  class in the module \<^verbatim>\<open>backend\<close>, which is not among the sources. The spec has the
  handle as an opaque collaborator that the daemon initialises lazily; the comment at the
  call in \<^verbatim>\<open>set_enabled_repos\<close> ("load the sack with the current enabled repos") says
  what the method does. It loads the sack and is taken to leave configuration and
  repositories as they are.
\<close>

definition setup_base :: "dnf_lib \<Rightarrow> dnf_base \<Rightarrow> dnf_base" where
  "setup_base L b = b\<lparr>sack := Some (fill_sack L b)\<rparr>"

text \<open>
  The loop over \<^verbatim>\<open>self._config_options\<close> in \<^verbatim>\<open>_get_base\<close>: for each key of the
  dictionary, in order, \<^verbatim>\<open>setattr(self._base.conf, option, value)\<close> with the value
  stored under the key.
\<close>

fun set_cached_options :: "(string \<times> json) list \<Rightarrow> string list \<Rightarrow> dnf_base \<Rightarrow> dnf_base" where
  "set_cached_options opts [] b = b"
| "set_cached_options opts (option # rest) b =
     (case map_of opts option of
        None \<Rightarrow> set_cached_options opts rest b
      | Some v \<Rightarrow> set_cached_options opts rest (b\<lparr>conf := (conf b)(option \<mapsto> v)\<rparr>))"

text \<open>The loop over \<^verbatim>\<open>self._base.repos.all()\<close> in \<^verbatim>\<open>_get_base\<close>.\<close>

definition set_repo_states :: "string list \<Rightarrow> repo list \<Rightarrow> repo list" where
  "set_repo_states ids rs =
     map (\<lambda>r. if repoid r \<in> set ids then r\<lparr>enabled := True\<rparr> else r\<lparr>enabled := False\<rparr>) rs"

text \<open>\<^verbatim>\<open>_get_base(reset=False, load_sack=True)\<close>; returns \<^verbatim>\<open>self._base\<close>.\<close>

definition priv_get_base :: "dnf_lib \<Rightarrow> bool \<Rightarrow> bool \<Rightarrow> daemon \<Rightarrow> dnf_base option \<times> daemon" where
  "priv_get_base L reset load_sack st =
     (if priv_base st = None \<or> reset then
        let b0 = DnfBase L;
            b1 = set_cached_options (priv_config_options st)
                   (map fst (priv_config_options st)) b0;
            b2 = (if priv_enabled_repos st \<noteq> []
                  then b1\<lparr>repos := set_repo_states (priv_enabled_repos st) (repos b1)\<rparr>
                  else b1);
            b3 = (if load_sack then setup_base L b2 else b2)
        in (Some b3, st\<lparr>priv_base := Some b3\<rparr>)
      else (priv_base st, st))"

text \<open>The property \<^verbatim>\<open>base\<close>.\<close>

definition base :: "dnf_lib \<Rightarrow> daemon \<Rightarrow> dnf_base option \<times> daemon" where
  "base L st =
     (let st1 = (if priv_base st = None then snd (priv_get_base L False True st) else st)
      in (priv_base st1, st1))"

text \<open>\<^verbatim>\<open>_reset_base\<close>: close the handle and forget it.\<close>

definition priv_reset_base :: "daemon \<Rightarrow> daemon" where
  "priv_reset_base st =
     (if priv_base st \<noteq> None
      then st\<lparr>events := events st @ [BaseClose], priv_base := None\<rparr>
      else st)"

subsection \<open>The watchdog\<close>

definition mainloop_quit :: "daemon \<Rightarrow> daemon" where
  "mainloop_quit st = st\<lparr>events := events st @ [MainloopQuit]\<rparr>"

text \<open>Python's truth value of \<^verbatim>\<open>self._lock\<close>: \<^verbatim>\<open>None\<close> and the empty string are false.\<close>

definition lock_held :: "daemon \<Rightarrow> bool" where
  "lock_held st = (case priv_lock st of None \<Rightarrow> False | Some s \<Rightarrow> s \<noteq> [])"

text \<open>
  \<^verbatim>\<open>_watchdog\<close>, one tick of the timer. The result is the return value: \<open>Some True\<close>
  keeps the timer, \<open>None\<close> is Python's \<^verbatim>\<open>None\<close> of a function that ends without
  \<^verbatim>\<open>return\<close>.
\<close>

definition priv_watchdog :: "daemon \<Rightarrow> bool option \<times> daemon" where
  "priv_watchdog st =
     (if priv_watchdog_disabled st \<or> priv_is_working st then (Some True, st)
      else
        let terminate =
              (if \<not> lock_held st then priv_watchdog_count st > priv_timeout_idle st
               else priv_watchdog_count st > priv_timeout_locked st)
        in if terminate then
             (if priv_can_quit st then (None, mainloop_quit (priv_reset_base st))
              else (None, st))
           else (Some True, st\<lparr>priv_watchdog_count := priv_watchdog_count st + 1\<rparr>))"

text \<open>The state after \<open>n\<close> ticks.\<close>

fun ticks :: "nat \<Rightarrow> daemon \<Rightarrow> daemon" where
  "ticks 0 st = st"
| "ticks (Suc n) st = ticks n (snd (priv_watchdog st))"

subsection \<open>Package ids\<close>

text \<open>\<^verbatim>\<open>_get_id\<close>\<close>

definition priv_get_id :: "pkg \<Rightarrow> string" where
  "priv_get_id pkg =
     (let values = [name pkg, str_int (epoch pkg), version pkg, release pkg,
                    arch pkg, ui_from_repo pkg]
      in join '','' values)"

text \<open>
  The queries on the sack. The installed packages are those of the system repository
  (\<^verbatim>\<open>hawkey.SYSTEM_REPO_NAME\<close>); a query keeps the order of the sack.
\<close>

definition q_installed :: "pkg list \<Rightarrow> pkg list" where
  "q_installed q = filter (\<lambda>p. reponame p = ''@System'') q"

definition q_available :: "pkg list \<Rightarrow> pkg list" where
  "q_available q = filter (\<lambda>p. reponame p \<noteq> ''@System'') q"

text \<open>\<^verbatim>\<open>f.filter(name=n, version=v, release=r, arch=a)\<close>\<close>

definition filter_nvra :: "string \<Rightarrow> string \<Rightarrow> string \<Rightarrow> string \<Rightarrow> pkg list \<Rightarrow> pkg list" where
  "filter_nvra n v r a f =
     filter (\<lambda>p. name p = n \<and> version p = v \<and> release p = r \<and> arch p = a) f"

text \<open>
  \<^verbatim>\<open>self.base.sack.query()\<close>: the handle (built on demand) and the packages of its sack;
  \<^verbatim>\<open>AttributeError\<close> when the sack is not loaded.
\<close>

definition sack_query :: "dnf_lib \<Rightarrow> daemon \<Rightarrow> (error + dnf_base \<times> pkg list) \<times> daemon" where
  "sack_query L st =
     (case base L st of
        (None, st1) \<Rightarrow> (Inl AttributeError, st1)
      | (Some b, st1) \<Rightarrow>
          (case sack b of
             None \<Rightarrow> (Inl AttributeError, st1)
           | Some q \<Rightarrow> (Inr (b, q), st1)))"

text \<open>
  \<^verbatim>\<open>_get_po\<close>. Unpacking the split id into six names raises \<^verbatim>\<open>ValueError\<close> unless
  it has exactly six fields.
\<close>

definition priv_get_po :: "dnf_lib \<Rightarrow> string \<Rightarrow> daemon \<Rightarrow> (error + pkg option) \<times> daemon" where
  "priv_get_po L ident st =
     (case split CHR '','' ident of
        [n, e, v, r, a, repo_id] \<Rightarrow>
          (case sack_query L st of
             (Inl err, st1) \<Rightarrow> (Inl err, st1)
           | (Inr (b, q), st1) \<Rightarrow>
               if startswith repo_id ''@'' then
                 let f = filter_nvra n v r a (q_installed q)
                 in if length f > 0 then (Inr (Some (f ! 0)), st1) else (Inr None, st1)
               else
                 let f = filter_nvra n v r a (q_available q)
                 in if length f > 0 then (Inr (Some (f ! 0)), st1) else (Inr None, st1))
      | _ \<Rightarrow> (Inl ValueError, st))"

subsection \<open>The GPG key import callback\<close>

text \<open>
  \<^verbatim>\<open>_handle_gpg_import\<close>. The final lookup \<^verbatim>\<open>self._gpg_confirm[hexkeyid]\<close> raises
  \<^verbatim>\<open>KeyError\<close> for a missing key.
\<close>

definition priv_handle_gpg_import :: "gpg_info \<Rightarrow> daemon \<Rightarrow> (error + bool) \<times> daemon" where
  "priv_handle_gpg_import info st =
     (let pkg_id = priv_get_id (gpg_po info);
          st1 = (if priv_gpg_confirm st (gpg_hexkeyid info) = None
                 then (st\<lparr>priv_gpg_confirm := (priv_gpg_confirm st)(gpg_hexkeyid info \<mapsto> False)\<rparr>)
                        \<lparr>events := events st @
                           [GPGImport pkg_id (gpg_userid info) (gpg_hexkeyid info) (gpg_keyurl info)
                              (gpg_timestamp info)]\<rparr>
                 else st)
      in (case priv_gpg_confirm st1 (gpg_hexkeyid info) of
            None \<Rightarrow> (Inl KeyError, st1)
          | Some confirmed \<Rightarrow> (Inr confirmed, st1)))"

subsection \<open>Package attributes\<close>

definition FAKE_ATTR :: "string list" where
  "FAKE_ATTR = [''downgrades'', ''action'', ''pkgtags'',
                ''changelog'', ''filelist'', ''updateinfo'', ''requires'']"

text \<open>\<^verbatim>\<open>p in s\<close> for strings: \<open>p\<close> occurs in \<open>s\<close>.\<close>

fun contains :: "string \<Rightarrow> string \<Rightarrow> bool" where
  "contains [] p = (p = [])"
| "contains (x # xs) p = (startswith (x # xs) p \<or> contains xs p)"

text \<open>\<^verbatim>\<open>_get_obsoletes\<close>: the cached list, filled when it is \<^verbatim>\<open>None\<close> or empty.\<close>

definition priv_get_obsoletes :: "dnf_lib \<Rightarrow> daemon \<Rightarrow> (error + pkg list) \<times> daemon" where
  "priv_get_obsoletes L st =
     (if priv_obsoletes_list st = None \<or> priv_obsoletes_list st = Some [] then
        (case base L st of
           (None, st1) \<Rightarrow> (Inl AttributeError, st1)
         | (Some b, st1) \<Rightarrow>
             (Inr (obsoletes L b), st1\<lparr>priv_obsoletes_list := Some (obsoletes L b)\<rparr>))
      else (case priv_obsoletes_list st of
              Some l \<Rightarrow> (Inr l, st)
            | None \<Rightarrow> (Inr [], st)))"

text \<open>\<^verbatim>\<open>_get_action\<close>\<close>

definition priv_get_action :: "dnf_lib \<Rightarrow> pkg \<Rightarrow> daemon \<Rightarrow> (error + string) \<times> daemon" where
  "priv_get_action L po st =
     (case sack_query L st of
        (Inl err, st1) \<Rightarrow> (Inl err, st1)
      | (Inr (b, q), st1) \<Rightarrow>
          if startswith (reponame po) ''@'' then (Inr ''remove'', st1)
          else
            let upd = filter_nvra (name po) (version po) (release po) (arch po) (upgrades L b)
            in if upd \<noteq> [] then (Inr ''update'', st1)
               else
                 (case priv_get_obsoletes L st1 of
                    (Inl err, st2) \<Rightarrow> (Inl err, st2)
                  | (Inr obs, st2) \<Rightarrow>
                      if po \<in> set obs then (Inr ''obsolete'', st2)
                      else
                        let ipkgs = filter (\<lambda>p. name p = name po) (q_installed q)
                        in (case ipkgs of
                              [] \<Rightarrow> (Inr ''install'', st2)
                            | ipkg # _ \<Rightarrow>
                                if evr_cmp L ipkg po > 0 then (Inr ''downgrade'', st2)
                                else (Inr ''install'', st2))))"

text \<open>\<^verbatim>\<open>_get_downgrades\<close>\<close>

definition priv_get_downgrades :: "dnf_lib \<Rightarrow> pkg \<Rightarrow> daemon \<Rightarrow> (error + string list) \<times> daemon" where
  "priv_get_downgrades L pkg st =
     (case sack_query L st of
        (Inl err, st1) \<Rightarrow> (Inl err, st1)
      | (Inr (b, q), st1) \<Rightarrow>
          let inst = filter (\<lambda>p. name p = name pkg \<and> arch p = arch pkg) (q_installed q)
          in (case inst of
                [] \<Rightarrow> (Inr [], st1)
              | i0 # _ \<Rightarrow>
                  if evr_cmp L pkg i0 = 0 then
                    let avail = filter (\<lambda>p. name p = name pkg \<and> arch p = arch pkg) (q_available q)
                    in (Inr (map priv_get_id (filter (\<lambda>apkg. evr_cmp L pkg apkg > 0) avail)), st1)
                  else if evr_cmp L pkg i0 < 0 then (Inr [priv_get_id i0], st1)
                  else (Inr [], st1)))"

text \<open>
  \<^verbatim>\<open>_get_requires\<close>: a dictionary from each dependency to the ids of its latest providers
  (\<open>AList.update\<close> is the assignment \<^verbatim>\<open>req_dict[req_str] = ...\<close>).
\<close>

fun requires_loop :: "dnf_lib \<Rightarrow> dnf_base \<Rightarrow> string list \<Rightarrow> (string \<times> string list) list
    \<Rightarrow> (string \<times> string list) list" where
  "requires_loop L b [] req_dict = req_dict"
| "requires_loop L b (req_str # rest) req_dict =
     (if contains req_str ''solvable:'' \<or> contains req_str ''rpmlib('' then
        requires_loop L b rest req_dict
      else
        requires_loop L b rest
          (AList.update req_str (map priv_get_id (providers L b req_str)) req_dict))"

definition priv_get_requires :: "dnf_lib \<Rightarrow> pkg \<Rightarrow> daemon \<Rightarrow> (error + json) \<times> daemon" where
  "priv_get_requires L pkg st =
     (case sack_query L st of
        (Inl err, st1) \<Rightarrow> (Inl err, st1)
      | (Inr (b, q), st1) \<Rightarrow>
          (Inr (JDict (map (\<lambda>kv. (fst kv, JList (map JStr (snd kv))))
                         (requires_loop L b (requires pkg) []))), st1))"

text \<open>
  \<^verbatim>\<open>_get_fake_attributes\<close>; a name outside the chain falls through to Python's
  \<^verbatim>\<open>None\<close>. The package is an object here, so the tests \<^verbatim>\<open>if po\<close> of the helpers hold.
\<close>

definition priv_get_fake_attributes ::
    "dnf_lib \<Rightarrow> pkg \<Rightarrow> string \<Rightarrow> daemon \<Rightarrow> (error + json) \<times> daemon" where
  "priv_get_fake_attributes L po attr st =
     (if attr = ''action'' then
        (case priv_get_action L po st of
           (Inl err, st1) \<Rightarrow> (Inl err, st1)
         | (Inr action, st1) \<Rightarrow> (Inr (JStr action), st1))
      else if attr = ''downgrades'' then
        (case priv_get_downgrades L po st of
           (Inl err, st1) \<Rightarrow> (Inl err, st1)
         | (Inr pkg_ids, st1) \<Rightarrow> (Inr (JList (map JStr pkg_ids)), st1))
      else if attr = ''pkgtags'' then (Inr (JList []), st)
      else if attr = ''changelog'' then (Inr JNone, st)
      else if attr = ''updateinfo'' then (Inr (advisories_list L po), st)
      else if attr = ''filelist'' then (Inr (JList (map JStr (files po))), st)
      else if attr = ''requires'' then priv_get_requires L po st
      else (Inr JNone, st))"

text \<open>\<^verbatim>\<open>get_attribute\<close>\<close>

definition get_attribute :: "dnf_lib \<Rightarrow> string \<Rightarrow> string \<Rightarrow> daemon \<Rightarrow> (error + string) \<times> daemon" where
  "get_attribute L ident attr st =
     (case priv_get_po L ident st of
        (Inl err, st1) \<Rightarrow> (Inl err, st1)
      | (Inr None, st1) \<Rightarrow> (Inr (json_dumps JNone), st1)
      | (Inr (Some po), st1) \<Rightarrow>
          if attr \<in> set FAKE_ATTR then
            (case priv_get_fake_attributes L po attr st1 of
               (Inl err, st2) \<Rightarrow> (Inl err, st2)
             | (Inr v, st2) \<Rightarrow> (Inr (json_dumps v), st2))
          else
            (case pkg_getattr po attr of
               Some (Data v) \<Rightarrow> (Inr (json_dumps v), st1)
             | Some Opaque \<Rightarrow> (Inl TypeError, st1)
             | None \<Rightarrow> (Inr (json_dumps JNone), st1)))"

subsection \<open>Configuration and repositories\<close>

text \<open>
  An access \<^verbatim>\<open>self.base\<close> followed by a use of the handle; a handle that is
  \<^verbatim>\<open>None\<close> raises \<^verbatim>\<open>AttributeError\<close> at the use.
\<close>

definition with_base ::
    "dnf_lib \<Rightarrow> daemon \<Rightarrow> (dnf_base \<Rightarrow> daemon \<Rightarrow> (error + 'a) \<times> daemon) \<Rightarrow> (error + 'a) \<times> daemon" where
  "with_base L st f =
     (case base L st of
        (None, st1) \<Rightarrow> (Inl AttributeError, st1)
      | (Some b, st1) \<Rightarrow> f b st1)"

text \<open>\<^verbatim>\<open>set_enabled_repos\<close>\<close>

definition set_enabled_repos :: "dnf_lib \<Rightarrow> string list \<Rightarrow> daemon \<Rightarrow> (error + unit) \<times> daemon" where
  "set_enabled_repos L repo_ids st =
     (let st1 = st\<lparr>priv_enabled_repos := repo_ids\<rparr>;
          st2 = priv_reset_base st1;
          st3 = snd (priv_get_base L True False st2)
      in (case priv_base st3 of
            None \<Rightarrow> (Inl AttributeError, st3)
          | Some b \<Rightarrow> (Inr (), st3\<lparr>priv_base := Some (setup_base L b)\<rparr>)))"

text \<open>
  The loop of \<^verbatim>\<open>set_option\<close> over \<^verbatim>\<open>repos.iter_enabled()\<close>: the option is set on each
  enabled repository that has an attribute of that name.
\<close>

definition set_repo_option :: "string \<Rightarrow> json \<Rightarrow> repo list \<Rightarrow> repo list" where
  "set_repo_option option v rs =
     map (\<lambda>repo. if enabled repo then
                    (if repo_attrs repo option \<noteq> None
                     then repo\<lparr>repo_attrs := (repo_attrs repo)(option \<mapsto> v)\<rparr>
                     else repo)
                  else repo) rs"

text \<open>
  \<^verbatim>\<open>set_option\<close> (the argument \<^verbatim>\<open>value\<close> is \<open>val\<close>). \<^verbatim>\<open>json.loads\<close> raises
  \<^verbatim>\<open>ValueError\<close> on a text that is not JSON. The assignment to the dictionary is
  \<open>AList.update\<close>; each \<^verbatim>\<open>self.base\<close> is an access to the property, and
  \<^verbatim>\<open>setattr\<close> changes the handle the daemon holds.
\<close>

definition set_option_cfg :: "dnf_lib \<Rightarrow> string \<Rightarrow> string \<Rightarrow> daemon \<Rightarrow> (error + bool) \<times> daemon" where
  "set_option_cfg L option val st =
     (case loads L val of
        None \<Rightarrow> (Inl ValueError, st)
      | Some v \<Rightarrow>
          let st1 = st\<lparr>priv_config_options := AList.update option v (priv_config_options st)\<rparr>
          in with_base L st1 (\<lambda>b st2.
               if conf b option \<noteq> None then
                 with_base L st2 (\<lambda>b2 st3.
                   let st4 = st3\<lparr>priv_base := Some (b2\<lparr>conf := (conf b2)(option \<mapsto> v)\<rparr>)\<rparr>
                   in with_base L st4 (\<lambda>b3 st5.
                        (Inr True,
                         st5\<lparr>priv_base :=
                               Some (b3\<lparr>repos := set_repo_option option v (repos b3)\<rparr>)\<rparr>)))
               else (Inr False, st2)))"

subsection \<open>History\<close>

text \<open>
  \<^verbatim>\<open>(now - tm).days\<close> for two dates and times of the local wall clock: Python subtracts
  them as they stand, without regard to the time zone, and \<^verbatim>\<open>days\<close> of the difference
  is the number of whole days in it, rounded down (a day has \<open>86400000000\<close>
  microseconds).
\<close>

definition delta_days :: "datetime \<Rightarrow> datetime \<Rightarrow> int" where
  "delta_days now tm = (now - tm) div 86400000000"

text \<open>
  The loop of \<^verbatim>\<open>get_history_by_days\<close>, from the index \<open>i\<close> on. A timestamp that is
  \<^verbatim>\<open>None\<close> or \<open>0\<close> is false for \<^verbatim>\<open>not ht.end_timestamp\<close>; an exception of
  \<^verbatim>\<open>datetime.fromtimestamp\<close> ends the loop.
\<close>

function history_loop ::
    "dnf_lib \<Rightarrow> hist_trans list \<Rightarrow> datetime \<Rightarrow> int \<Rightarrow> int \<Rightarrow> nat \<Rightarrow> hist_trans list
       \<Rightarrow> error + hist_trans list" where
  "history_loop L hs now start end' i result =
     (if i < length hs then
        let ht = hs ! i
        in (case end_timestamp ht of
              None \<Rightarrow> history_loop L hs now start end' (i + 1) result
            | Some t \<Rightarrow>
                if t = 0 then history_loop L hs now start end' (i + 1) result
                else (case fromtimestamp L t of
                        Inl err \<Rightarrow> Inl err
                      | Inr tm \<Rightarrow>
                          if delta_days now tm < start then
                            history_loop L hs now start end' (i + 1) result
                          else if delta_days now tm > end' then Inr result
                          else history_loop L hs now start end' (i + 1) (result @ [ht])))
      else Inr result)"
  by pat_completeness auto
termination
  by (relation "measure (\<lambda>(L, hs, now, start, end', i, result). length hs - i)") auto

declare history_loop.simps [simp del]

text \<open>
  \<^verbatim>\<open>_get_id_time_list\<close>; \<^verbatim>\<open>datetime.fromtimestamp(None)\<close> raises \<^verbatim>\<open>TypeError\<close>.
\<close>

fun priv_get_id_time_list :: "dnf_lib \<Rightarrow> hist_trans list \<Rightarrow> error + (int \<times> string) list" where
  "priv_get_id_time_list L [] = Inr []"
| "priv_get_id_time_list L (ht # rest) =
     (case end_timestamp ht of
        None \<Rightarrow> Inl TypeError
      | Some t \<Rightarrow>
          (case fromtimestamp L t of
             Inl err \<Rightarrow> Inl err
           | Inr tm \<Rightarrow>
               (case priv_get_id_time_list L rest of
                  Inl err \<Rightarrow> Inl err
                | Inr result \<Rightarrow> Inr ((tid ht, isoformat L tm) # result))))"

text \<open>
  \<^verbatim>\<open>get_history_by_days\<close>; \<open>now\<close> is what \<^verbatim>\<open>datetime.now()\<close> returns, the date and
  time of the local wall clock at the call. A pair is serialised as a list of two.
\<close>

definition get_history_by_days ::
    "dnf_lib \<Rightarrow> datetime \<Rightarrow> int \<Rightarrow> int \<Rightarrow> daemon \<Rightarrow> (error + string) \<times> daemon" where
  "get_history_by_days L now start end' st =
     with_base L st (\<lambda>b st1.
       (case history_loop L (history b) now start end' 0 [] of
          Inl err \<Rightarrow> (Inl err, st1)
        | Inr result \<Rightarrow>
            (case priv_get_id_time_list L result of
               Inl err \<Rightarrow> (Inl err, st1)
             | Inr pairs \<Rightarrow>
                 (Inr (json_dumps
                    (JList (map (\<lambda>p. JList [JInt (fst p), JStr (snd p)]) pairs))),
                  st1))))"

subsection \<open>The current transaction\<close>

text \<open>
  \<^verbatim>\<open>_active_pkg\<close>: the getter that \<^verbatim>\<open>_ACTIVE_DCT\<close> has for the operation type, applied
  to the item.
\<close>

definition priv_active_pkg :: "tsi \<Rightarrow> pkg option" where
  "priv_active_pkg tsi =
     (case op_type tsi of
        DOWNGRADE \<Rightarrow> installed tsi
      | ERASE \<Rightarrow> erased tsi
      | INSTALL \<Rightarrow> installed tsi
      | REINSTALL \<Rightarrow> installed tsi
      | UPGRADE \<Rightarrow> installed tsi)"

text \<open>
  The dictionary \<^verbatim>\<open>tx_list\<close> of \<^verbatim>\<open>_get_transaction\<close> after its initialisation, and
  the loop that appends every item to the list of its operation
  (\<open>AList.map_entry k (\<lambda>l. l @ [tsi])\<close> is \<^verbatim>\<open>tx_list[k].append(tsi)\<close>).
\<close>

definition tx_list_init :: "(string \<times> tsi list) list" where
  "tx_list_init = [(''downgrade'', []), (''remove'', []), (''install'', []),
                   (''reinstall'', []), (''update'', [])]"

fun sort_tsis :: "tsi list \<Rightarrow> (string \<times> tsi list) list \<Rightarrow> (string \<times> tsi list) list" where
  "sort_tsis [] tx_list = tx_list"
| "sort_tsis (tsi # rest) tx_list =
     sort_tsis rest
       (if op_type tsi = DOWNGRADE then AList.map_entry ''downgrade'' (\<lambda>l. l @ [tsi]) tx_list
        else if op_type tsi = ERASE then AList.map_entry ''remove'' (\<lambda>l. l @ [tsi]) tx_list
        else if op_type tsi = INSTALL then AList.map_entry ''install'' (\<lambda>l. l @ [tsi]) tx_list
        else if op_type tsi = REINSTALL then AList.map_entry ''reinstall'' (\<lambda>l. l @ [tsi]) tx_list
        else if op_type tsi = UPGRADE then AList.map_entry ''update'' (\<lambda>l. l @ [tsi]) tx_list
        else tx_list)"

text \<open>\<^verbatim>\<open>tx_list[k]\<close> for one of the five keys, which are always present.\<close>

definition tx_get :: "(string \<times> tsi list) list \<Rightarrow> string \<Rightarrow> tsi list" where
  "tx_get tx_list k = (case map_of tx_list k of None \<Rightarrow> [] | Some l \<Rightarrow> l)"

text \<open>
  The inner loop of the action tree: one element \<^verbatim>\<open>(id, size, alist)\<close> per item, added
  to \<^verbatim>\<open>sublist\<close>. An item without its active package raises \<^verbatim>\<open>AttributeError\<close> at
  \<^verbatim>\<open>po.pkgtup\<close>.
\<close>

fun build_sublist :: "tsi list \<Rightarrow> json list \<Rightarrow> error + json list" where
  "build_sublist [] sublist = Inr sublist"
| "build_sublist (tsi # rest) sublist =
     (case priv_active_pkg tsi of
        None \<Rightarrow> Inl AttributeError
      | Some po \<Rightarrow>
          let size = JFloat (size_pkg po);
              alist = map priv_get_id (obsoleted tsi);
              el = JList [JStr (priv_get_id po), size, JList (map JStr alist)]
          in build_sublist rest (sublist @ [el]))"

text \<open>The outer loop over the pairs \<^verbatim>\<open>(action, pkglist)\<close>.\<close>

fun build_tree :: "(string \<times> tsi list) list \<Rightarrow> json list \<Rightarrow> json list \<Rightarrow> error + json list" where
  "build_tree [] out_list sublist = Inr out_list"
| "build_tree ((action, pkglist) # rest) out_list sublist =
     (case build_sublist pkglist sublist of
        Inl err \<Rightarrow> Inl err
      | Inr sublist1 \<Rightarrow>
          if pkglist \<noteq> [] then
            build_tree rest (out_list @ [JList [JStr action, JList sublist1]]) []
          else build_tree rest out_list sublist1)"

definition action_tree :: "(string \<times> tsi list) list \<Rightarrow> error + json list" where
  "action_tree tx_list =
     build_tree [(''install'', tx_get tx_list ''install''),
                 (''update'', tx_get tx_list ''update''),
                 (''remove'', tx_get tx_list ''remove''),
                 (''reinstall'', tx_get tx_list ''reinstall''),
                 (''downgrade'', tx_get tx_list ''downgrade'')] [] []"

text \<open>
  \<^verbatim>\<open>_get_transaction\<close>. The transaction of the handle is \<^verbatim>\<open>None\<close> before the goal is
  resolved; \<^verbatim>\<open>if self.base.transaction\<close> is false for \<^verbatim>\<open>None\<close> and for an empty
  transaction.
\<close>

definition priv_get_transaction :: "dnf_lib \<Rightarrow> daemon \<Rightarrow> (error + json list) \<times> daemon" where
  "priv_get_transaction L st =
     with_base L st (\<lambda>b st1.
       if (case transaction b of None \<Rightarrow> False | Some tsis \<Rightarrow> tsis \<noteq> []) then
         with_base L st1 (\<lambda>b2 st2.
           (case transaction b2 of
              None \<Rightarrow> (Inl TypeError, st2)
            | Some tsis \<Rightarrow> (action_tree (sort_tsis tsis tx_list_init), st2)))
       else (action_tree tx_list_init, st1))"

text \<open>\<^verbatim>\<open>get_transaction\<close>; the tuple \<^verbatim>\<open>(rc, trans)\<close> is serialised as a list.\<close>

definition get_transaction :: "dnf_lib \<Rightarrow> daemon \<Rightarrow> (error + string) \<times> daemon" where
  "get_transaction L st =
     (case priv_get_transaction L st of
        (Inl err, st1) \<Rightarrow> (Inl err, st1)
      | (Inr trans', st1) \<Rightarrow>
          let rc = (if trans' \<noteq> [] then True else False)
          in (Inr (json_dumps (JList [JBool rc, JList trans'])), st1))"

subsection \<open>Running the transaction\<close>

text \<open>A signal or an outward call: one more event.\<close>

definition signal :: "event \<Rightarrow> daemon \<Rightarrow> daemon" where
  "signal ev st = st\<lparr>events := events st @ [ev]\<rparr>"

text \<open>
  \<^verbatim>\<open>_get_packages_to_download\<close>. Iterating over a transaction that is \<^verbatim>\<open>None\<close> raises
  \<^verbatim>\<open>TypeError\<close>.
\<close>

fun installed_pkgs :: "tsi list \<Rightarrow> pkg list \<Rightarrow> pkg list" where
  "installed_pkgs [] to_dnl = to_dnl"
| "installed_pkgs (tsi # rest) to_dnl =
     (case installed tsi of
        None \<Rightarrow> installed_pkgs rest to_dnl
      | Some p \<Rightarrow> installed_pkgs rest (to_dnl @ [p]))"

definition priv_get_packages_to_download :: "dnf_lib \<Rightarrow> daemon \<Rightarrow> (error + pkg list) \<times> daemon" where
  "priv_get_packages_to_download L st =
     with_base L st (\<lambda>b st1.
       (case transaction b of
          None \<Rightarrow> (Inl TypeError, st1)
        | Some tsis \<Rightarrow> (Inr (installed_pkgs tsis []), st1)))"

text \<open>
  \<^verbatim>\<open>_check_gpg_signatures\<close>: a result \<open>0\<close> of the check passes, \<open>1\<close> asks for the key
  (an error of the library there becomes a \<^verbatim>\<open>GPGError\<close> with its text), anything else
  raises \<^verbatim>\<open>GPGError\<close> with the message of the check.
\<close>

fun priv_check_gpg_signatures :: "dnf_lib \<Rightarrow> pkg list \<Rightarrow> daemon \<Rightarrow> (error + int) \<times> daemon" where
  "priv_check_gpg_signatures L [] st = (Inr 0, st)"
| "priv_check_gpg_signatures L (po # rest) st =
     (case base L st of
        (None, st1) \<Rightarrow> (Inl AttributeError, st1)
      | (Some b, st1) \<Rightarrow>
          (case sig_check_pkg L b po of
             (result, errmsg) \<Rightarrow>
               if result = 0 then priv_check_gpg_signatures L rest st1
               else if result = 1 then
                 (case get_key_for_package L po priv_handle_gpg_import st1 of
                    (Some text, st2) \<Rightarrow> (Inl (GPGError text), st2)
                  | (None, st2) \<Rightarrow> priv_check_gpg_signatures L rest st2)
               else (Inl (GPGError errmsg), st1)))"

text \<open>
  The last statements of the \<^verbatim>\<open>try\<close> body of \<^verbatim>\<open>run_transaction\<close>, from the event
  \<^verbatim>\<open>run-transaction\<close> on.
\<close>

definition run_rpm :: "dnf_lib \<Rightarrow> daemon \<Rightarrow> error option \<times> daemon" where
  "run_rpm L st5 =
     (let st6 = signal (TransactionEvent ''run-transaction'' (JStr NONE)) st5;
          st7 = st6\<lparr>priv_can_quit := False\<rparr>
      in (case base L st7 of
            (None, st8) \<Rightarrow> (Some AttributeError, st8)
          | (Some b, st8) \<Rightarrow> (map_option Dnf (do_transaction L b), st8)))"

text \<open>
  The body of the \<^verbatim>\<open>try\<close> statement of \<^verbatim>\<open>run_transaction\<close>: the exception it ends
  with, if any, and the state then.
\<close>

definition run_body :: "dnf_lib \<Rightarrow> pkg list \<Rightarrow> daemon \<Rightarrow> error option \<times> daemon" where
  "run_body L to_dnl st =
     (if to_dnl \<noteq> [] then
        let data = map priv_get_id to_dnl;
            st1 = signal (TransactionEvent ''pkg-to-download'' (JList (map JStr data))) st;
            st2 = signal (TransactionEvent ''download'' (JStr NONE)) st1
        in (case base L st2 of
              (None, st3) \<Rightarrow> (Some AttributeError, st3)
            | (Some b, st3) \<Rightarrow>
                (case download_packages L b to_dnl of
                   Some err \<Rightarrow> (Some (Dnf err), st3)
                 | None \<Rightarrow>
                     let st4 = signal (TransactionEvent ''signature-check'' (JStr NONE)) st3
                     in (case priv_check_gpg_signatures L to_dnl st4 of
                           (Inl err, st5) \<Rightarrow> (Some err, st5)
                         | (Inr ok, st5) \<Rightarrow> run_rpm L st5)))
      else run_rpm L st)"

text \<open>
  The handler of \<^verbatim>\<open>DownloadError\<close> for an error map that is a dictionary: for each file
  name, in the order of the dictionary, one string \<^verbatim>\<open>"%s : %s" % (fn, msg)\<close> per message
  stored under it.
\<close>

fun errmap_msgs :: "(string \<times> string list) list \<Rightarrow> string list \<Rightarrow> string list \<Rightarrow> string list" where
  "errmap_msgs msgs [] error_msgs = error_msgs"
| "errmap_msgs msgs (fn # rest) error_msgs =
     errmap_msgs msgs rest
       (error_msgs @ map (\<lambda>msg. fn @ '' : '' @ msg)
                       (case map_of msgs fn of None \<Rightarrow> [] | Some l \<Rightarrow> l))"

text \<open>
  \<^verbatim>\<open>run_transaction\<close>. The \<^verbatim>\<open>except\<close> clauses catch \<^verbatim>\<open>DownloadError\<close>,
  \<^verbatim>\<open>GPGError\<close> and \<^verbatim>\<open>dnf.exceptions.Error\<close>, in this order; any other exception
  passes, and so does one raised before the \<^verbatim>\<open>try\<close>.
\<close>

definition run_transaction :: "dnf_lib \<Rightarrow> daemon \<Rightarrow> (error + string) \<times> daemon" where
  "run_transaction L st =
     (let st1 = signal (TransactionEvent ''start-run'' (JStr NONE)) st;
          finish = (\<lambda>rc msgs st3.
            let st4 = st3\<lparr>priv_can_quit := True\<rparr>;
                st5 = priv_reset_base st4;
                st6 = signal (TransactionEvent ''end-run'' (JStr NONE)) st5
            in (Inr (json_dumps (JList [JInt rc, JList (map JStr msgs)])), st6))
      in (case priv_get_packages_to_download L st1 of
            (Inl err, st2) \<Rightarrow> (Inl err, st2)
          | (Inr to_dnl, st2) \<Rightarrow>
              (case run_body L to_dnl st2 of
                 (None, st3) \<Rightarrow> finish 0 [] st3
               | (Some (Dnf (DownloadError (Some errmap) text)), st3) \<Rightarrow>
                   finish 4 (errmap_msgs errmap (map fst errmap) []) st3
               | (Some (Dnf (DownloadError None text)), st3) \<Rightarrow> finish 4 [text] st3
               | (Some (GPGError text), st3) \<Rightarrow> finish 1 [text] st3
               | (Some (Dnf (Error text)), st3) \<Rightarrow> finish 2 [text] st3
               | (Some err, st3) \<Rightarrow> (Inl err, st3))))"

subsection \<open>Notions used to state the properties\<close>

text \<open>The count the watchdog compares with: the timeout that applies in the state.\<close>

definition watchdog_limit :: "daemon \<Rightarrow> int" where
  "watchdog_limit st = (if lock_held st then priv_timeout_locked st else priv_timeout_idle st)"

text \<open>A package whose string fields have no comma (the epoch is a number).\<close>

definition comma_free :: "pkg \<Rightarrow> bool" where
  "comma_free p \<longleftrightarrow>
     CHR '','' \<notin> set (name p) \<and> CHR '','' \<notin> set (version p) \<and>
     CHR '','' \<notin> set (release p) \<and> CHR '','' \<notin> set (arch p) \<and>
     CHR '','' \<notin> set (ui_from_repo p)"

text \<open>Two packages agree on name, version, release and architecture.\<close>

definition same_nvra :: "pkg \<Rightarrow> pkg \<Rightarrow> bool" where
  "same_nvra q p \<longleftrightarrow>
     name q = name p \<and> version q = version p \<and> release q = release p \<and> arch q = arch p"

text \<open>
  What \<^verbatim>\<open>run_transaction\<close> answers for the exception its \<^verbatim>\<open>try\<close> statement ends
  with, in the words of the claim: the code \<^verbatim>\<open>rc\<close> and the messages. For a download
  error with an error map, one string per file name and message of the map.
\<close>

definition file_msgs :: "(string \<times> string list) list \<Rightarrow> string list" where
  "file_msgs errmap = concat (map (\<lambda>e. map (\<lambda>msg. fst e @ '' : '' @ msg) (snd e)) errmap)"

text \<open>The error map of a download error has every file name once, as a dictionary has.\<close>

definition dict_errmap :: "error option \<Rightarrow> bool" where
  "dict_errmap e =
     (case e of
        Some (Dnf (DownloadError (Some errmap) text)) \<Rightarrow> distinct (map fst errmap)
      | _ \<Rightarrow> True)"

fun outcome :: "error option \<Rightarrow> (int \<times> string list) option" where
  "outcome None = Some (0, [])"
| "outcome (Some (Dnf (DownloadError (Some errmap) text))) = Some (4, file_msgs errmap)"
| "outcome (Some (Dnf (DownloadError None text))) = Some (4, [text])"
| "outcome (Some (GPGError text)) = Some (1, [text])"
| "outcome (Some (Dnf (Error text))) = Some (2, [text])"
| "outcome (Some err) = None"

text \<open>
  The return of \<^verbatim>\<open>run_transaction\<close> after its \<^verbatim>\<open>try\<close> statement, for a code and
  a list of messages: \<^verbatim>\<open>_can_quit\<close> is set, the handle reset and the event
  \<^verbatim>\<open>end-run\<close> sent.
\<close>

definition finished :: "int \<Rightarrow> string list \<Rightarrow> daemon \<Rightarrow> (error + string) \<times> daemon" where
  "finished rc msgs st3 =
     (Inr (json_dumps (JList [JInt rc, JList (map JStr msgs)])),
      signal (TransactionEvent ''end-run'' (JStr NONE))
        (priv_reset_base (st3\<lparr>priv_can_quit := True\<rparr>)))"

text \<open>
  The items of the current transaction (none before the goal is resolved), and the
  condition that every item carries its active package, as the items of the library do.
\<close>

definition tsis_of :: "dnf_base \<Rightarrow> tsi list" where
  "tsis_of b = (case transaction b of None \<Rightarrow> [] | Some tsis \<Rightarrow> tsis)"

definition active_present :: "tsi list \<Rightarrow> bool" where
  "active_present tsis \<longleftrightarrow> list_all (\<lambda>tsi. priv_active_pkg tsi \<noteq> None) tsis"

text \<open>The key of \<^verbatim>\<open>tx_list\<close> for an operation type, and a dictionary with the five keys.\<close>

definition tx_key :: "op_type \<Rightarrow> string" where
  "tx_key op = (case op of DOWNGRADE \<Rightarrow> ''downgrade'' | ERASE \<Rightarrow> ''remove''
     | INSTALL \<Rightarrow> ''install'' | REINSTALL \<Rightarrow> ''reinstall'' | UPGRADE \<Rightarrow> ''update'')"

definition has_keys :: "(string \<times> tsi list) list \<Rightarrow> bool" where
  "has_keys al \<longleftrightarrow> map_of al ''downgrade'' \<noteq> None \<and> map_of al ''remove'' \<noteq> None \<and>
     map_of al ''install'' \<noteq> None \<and> map_of al ''reinstall'' \<noteq> None \<and>
     map_of al ''update'' \<noteq> None"

text \<open>
  The triple of an item: the id of its active package, its size as a float, and the ids
  of the packages it obsoletes.
\<close>

definition render :: "tsi \<Rightarrow> json" where
  "render tsi =
     (case priv_active_pkg tsi of
        None \<Rightarrow> JNone
      | Some po \<Rightarrow>
          JList [JStr (priv_get_id po), JFloat (size_pkg po),
                 JList (map (\<lambda>p. JStr (priv_get_id p)) (obsoleted tsi))])"

text \<open>
  The transaction grouped by action, in the fixed order, an action being listed when it
  has an item.
\<close>

definition action_order :: "(string \<times> op_type) list" where
  "action_order = [(''install'', INSTALL), (''update'', UPGRADE), (''remove'', ERASE),
                   (''reinstall'', REINSTALL), (''downgrade'', DOWNGRADE)]"

definition action_group :: "tsi list \<Rightarrow> string \<times> op_type \<Rightarrow> json list" where
  "action_group tsis ao =
     (if filter (\<lambda>t. op_type t = snd ao) tsis = [] then []
      else [JList [JStr (fst ao), JList (map render (filter (\<lambda>t. op_type t = snd ao) tsis))]])"

definition grouped :: "tsi list \<Rightarrow> json list" where
  "grouped tsis = concat (map (action_group tsis) action_order)"

text \<open>
  A history transaction has an end timestamp (one that is not \<^verbatim>\<open>None\<close> and not \<open>0\<close>);
  \<^verbatim>\<open>datetime.fromtimestamp\<close> converts its end timestamp, if it has one, to a local
  date and time; its age in whole days at the local date and time \<open>now\<close>, both read
  on the local wall clock (\<open>0\<close> where there is none).
\<close>

definition has_end :: "hist_trans \<Rightarrow> bool" where
  "has_end ht = (case end_timestamp ht of None \<Rightarrow> False | Some t \<Rightarrow> t \<noteq> 0)"

definition converts :: "dnf_lib \<Rightarrow> hist_trans \<Rightarrow> bool" where
  "converts L ht =
     (case end_timestamp ht of
        None \<Rightarrow> True
      | Some t \<Rightarrow> t = 0 \<or> (case fromtimestamp L t of Inl err \<Rightarrow> False | Inr tm \<Rightarrow> True))"

definition age :: "dnf_lib \<Rightarrow> datetime \<Rightarrow> hist_trans \<Rightarrow> int" where
  "age L now ht =
     (case end_timestamp ht of
        None \<Rightarrow> 0
      | Some t \<Rightarrow> (case fromtimestamp L t of Inl err \<Rightarrow> 0 | Inr tm \<Rightarrow> delta_days now tm))"

text \<open>
  The transactions \<^verbatim>\<open>get_history_by_days(start, end)\<close> is after, and those at which
  its scan of the history stops.
\<close>

definition qualifies :: "dnf_lib \<Rightarrow> datetime \<Rightarrow> int \<Rightarrow> int \<Rightarrow> hist_trans \<Rightarrow> bool" where
  "qualifies L now start end' ht \<longleftrightarrow>
     has_end ht \<and> converts L ht \<and> start \<le> age L now ht \<and> age L now ht \<le> end'"

definition stops :: "dnf_lib \<Rightarrow> datetime \<Rightarrow> int \<Rightarrow> int \<Rightarrow> hist_trans \<Rightarrow> bool" where
  "stops L now start end' ht \<longleftrightarrow>
     has_end ht \<and> converts L ht \<and> start \<le> age L now ht \<and> end' < age L now ht"

text \<open>
  The scan of \<^verbatim>\<open>get_history_by_days\<close> as a recursion over the rest of the history
  (shown below to be what the loop over the index computes).
\<close>

fun scan :: "dnf_lib \<Rightarrow> datetime \<Rightarrow> int \<Rightarrow> int \<Rightarrow> hist_trans list \<Rightarrow> error + hist_trans list" where
  "scan L now start end' [] = Inr []"
| "scan L now start end' (ht # rest) =
     (case end_timestamp ht of
        None \<Rightarrow> scan L now start end' rest
      | Some t \<Rightarrow>
          if t = 0 then scan L now start end' rest
          else (case fromtimestamp L t of
                  Inl err \<Rightarrow> Inl err
                | Inr tm \<Rightarrow>
                    if delta_days now tm < start then scan L now start end' rest
                    else if delta_days now tm > end' then Inr []
                    else (case scan L now start end' rest of
                            Inl err \<Rightarrow> Inl err
                          | Inr found \<Rightarrow> Inr (ht # found))))"

text \<open>A history in which a later entry is never younger than an earlier one.\<close>

definition oldest_last :: "dnf_lib \<Rightarrow> datetime \<Rightarrow> hist_trans list \<Rightarrow> bool" where
  "oldest_last L now hs =
     sorted_wrt (\<lambda>x y. has_end x \<and> has_end y \<longrightarrow> age L now x \<le> age L now y) hs"

text \<open>The pair \<^verbatim>\<open>(tid, isodate)\<close> of a transaction, as JSON.\<close>

definition id_time :: "dnf_lib \<Rightarrow> hist_trans \<Rightarrow> json" where
  "id_time L ht =
     (case end_timestamp ht of
        None \<Rightarrow> JNone
      | Some t \<Rightarrow>
          (case fromtimestamp L t of
             Inl err \<Rightarrow> JNone
           | Inr tm \<Rightarrow> JList [JInt (tid ht), JStr (isoformat L tm)]))"

text \<open>The handle the daemon holds, if any, has its sack loaded.\<close>

definition sack_loaded :: "daemon \<Rightarrow> bool" where
  "sack_loaded st = (case priv_base st of None \<Rightarrow> True | Some b \<Rightarrow> sack b \<noteq> None)"

text \<open>The handle that \<^verbatim>\<open>_get_base\<close> constructs in the state \<open>st\<close>.\<close>

definition fresh_base :: "dnf_lib \<Rightarrow> bool \<Rightarrow> daemon \<Rightarrow> dnf_base" where
  "fresh_base L load_sack st = the (fst (priv_get_base L True load_sack st))"

subsection \<open>A small installation, for evaluating the model\<close>

definition bash_pkg :: pkg where
  "bash_pkg = \<lparr> name = ''bash'', epoch = 0, version = ''5.2'', release = ''1.fc40'',
       arch = ''x86_64'', reponame = ''@System'', ui_from_repo = ''@fedora'',
       size_pkg = 1900, files = [''/usr/bin/bash''], requires = [],
       other_attrs = [(''summary'', Data (JStr ''The GNU shell''))] \<rparr>"

definition vim_pkg :: pkg where
  "vim_pkg = \<lparr> name = ''vim'', epoch = 2, version = ''9.1'', release = ''3.fc40'',
       arch = ''x86_64'', reponame = ''updates'', ui_from_repo = ''updates'',
       size_pkg = 2500, files = [], requires = [],
       other_attrs = [(''summary'', Data (JStr ''An editor'')), (''evr_eq'', Opaque)] \<rparr>"

definition fedora_repo :: repo where
  "fedora_repo = \<lparr> repoid = ''fedora'', enabled = True,
       repo_attrs = [''gpgcheck'' \<mapsto> JBool True] \<rparr>"

definition updates_repo :: repo where
  "updates_repo = \<lparr> repoid = ''updates'', enabled = False,
       repo_attrs = [''gpgcheck'' \<mapsto> JBool True] \<rparr>"

definition ex_base :: dnf_base where
  "ex_base = \<lparr> conf = [''debuglevel'' \<mapsto> JInt 2, ''gpgcheck'' \<mapsto> JBool True],
       repos = [fedora_repo, updates_repo], sack = None, transaction = None,
       history = [] \<rparr>"

definition ex_lib :: dnf_lib where
  "ex_lib = \<lparr> DnfBase = ex_base,
       fill_sack = (\<lambda>b. [bash_pkg, vim_pkg]),
       download_packages = (\<lambda>b pkgs. None),
       do_transaction = (\<lambda>b. None),
       sig_check_pkg = (\<lambda>b p. (0, [])),
       get_key_for_package = (\<lambda>p cb st. (None, st)),
       loads = (\<lambda>s. if s = ''true'' then Some (JBool True)
                     else if s = ''false'' then Some (JBool False)
                     else if s = ''null'' then Some JNone else None),
       fromtimestamp = (\<lambda>t. Inr (t * 1000000)),
       isoformat = (\<lambda>tm. str_int tm),
       upgrades = (\<lambda>b. []),
       obsoletes = (\<lambda>b. []),
       providers = (\<lambda>b req. []),
       evr_cmp = (\<lambda>p q. 0),
       advisories_list = (\<lambda>p. JList []) \<rparr>"

text \<open>
  A history whose first entry (the newest transaction) ended earlier than the second,
  and one in the order of the ends, read when the local wall clock (here the seconds
  since the epoch, in microseconds) shows \<open>hist_now\<close>.
\<close>

definition hist_now :: datetime where
  "hist_now = 3600000000000"

definition hist_old :: hist_trans where
  "hist_old = \<lparr> tid = 2, end_timestamp = Some 1000000 \<rparr>"

definition hist_new :: hist_trans where
  "hist_new = \<lparr> tid = 1, end_timestamp = Some 3160000 \<rparr>"

definition hist_lib :: "hist_trans list \<Rightarrow> dnf_lib" where
  "hist_lib hs = ex_lib\<lparr>DnfBase := ex_base\<lparr>history := hs\<rparr>\<rparr>"

text \<open>
  A machine in the time zone Europe/Berlin around the clock change of 26 March 2023
  (at the timestamp \<open>1679792400\<close> the wall clock goes from one hour ahead of UTC to
  two), with one transaction that ended at 12:00 local time the day before; and the
  wall clock at 12:00 local time on the day of the change, \<open>82800\<close> seconds later.
\<close>

definition berlin_fromtimestamp :: "int \<Rightarrow> error + datetime" where
  "berlin_fromtimestamp t =
     Inr ((t + (if t < 1679792400 then 3600 else 7200)) * 1000000)"

definition hist_berlin :: hist_trans where
  "hist_berlin = \<lparr> tid = 7, end_timestamp = Some 1679742000 \<rparr>"

definition berlin_lib :: dnf_lib where
  "berlin_lib = (hist_lib [hist_berlin])\<lparr>fromtimestamp := berlin_fromtimestamp\<rparr>"

definition berlin_now :: datetime where
  "berlin_now = (1679824800 + 7200) * 1000000"

text \<open>
  A machine on which \<^verbatim>\<open>datetime.fromtimestamp\<close> raises \<^verbatim>\<open>ValueError\<close> for a
  timestamp after the year 9999, and a transaction with such an end.
\<close>

definition year_fromtimestamp :: "int \<Rightarrow> error + datetime" where
  "year_fromtimestamp t = (if t > 253402300799 then Inl ValueError else Inr (t * 1000000))"

definition hist_far :: hist_trans where
  "hist_far = \<lparr> tid = 3, end_timestamp = Some 253402300800 \<rparr>"

definition year_lib :: "hist_trans list \<Rightarrow> dnf_lib" where
  "year_lib hs = (hist_lib hs)\<lparr>fromtimestamp := year_fromtimestamp\<rparr>"

text \<open>A daemon whose handle holds a resolved transaction: install \<open>vim\<close>, erase \<open>bash\<close>.\<close>

definition install_vim :: tsi where
  "install_vim = \<lparr> op_type = INSTALL, installed = Some vim_pkg, erased = None,
       obsoleted = [] \<rparr>"

definition erase_bash :: tsi where
  "erase_bash = \<lparr> op_type = ERASE, installed = None, erased = Some bash_pkg,
       obsoleted = [] \<rparr>"

definition tx_base :: dnf_base where
  "tx_base = ex_base\<lparr>sack := Some [bash_pkg, vim_pkg],
                     transaction := Some [erase_bash, install_vim]\<rparr>"

definition tx_state :: daemon where
  "tx_state = init\<lparr>priv_base := Some tx_base\<rparr>"

text \<open>A library whose download fails for one file with two messages.\<close>

definition failing_lib :: dnf_lib where
  "failing_lib = ex_lib\<lparr>download_packages :=
       (\<lambda>b pkgs. Some (DownloadError (Some [(''vim.rpm'', [''timeout'', ''bad checksum''])])
                         ''download failed''))\<rparr>"

section \<open>Verification\<close>

subsection \<open>The watchdog\<close>

lemma watchdog_busy:
  "priv_watchdog_disabled st \<or> priv_is_working st \<Longrightarrow> priv_watchdog st = (Some True, st)"
  by (simp add: priv_watchdog_def)

lemma ticks_busy:
  "priv_watchdog_disabled st \<or> priv_is_working st \<Longrightarrow> ticks n st = st"
  by (induction n) (simp_all add: watchdog_busy)

lemma watchdog_count_up:
  assumes "\<not> priv_watchdog_disabled st" "\<not> priv_is_working st"
    and "priv_watchdog_count st \<le> watchdog_limit st"
  shows "priv_watchdog st = (Some True, st\<lparr>priv_watchdog_count := priv_watchdog_count st + 1\<rparr>)"
  using assms by (auto simp: priv_watchdog_def watchdog_limit_def Let_def)

lemma watchdog_quit:
  assumes "\<not> priv_watchdog_disabled st" "\<not> priv_is_working st"
    and "watchdog_limit st < priv_watchdog_count st" and "priv_can_quit st"
  shows "priv_watchdog st = (None, mainloop_quit (priv_reset_base st))"
  using assms by (auto simp: priv_watchdog_def watchdog_limit_def Let_def)

lemma watchdog_stay:
  assumes "\<not> priv_watchdog_disabled st" "\<not> priv_is_working st"
    and "watchdog_limit st < priv_watchdog_count st" and "\<not> priv_can_quit st"
  shows "priv_watchdog st = (None, st)"
  using assms by (auto simp: priv_watchdog_def watchdog_limit_def Let_def)

lemma limit_count_upd [simp]:
  "watchdog_limit (st\<lparr>priv_watchdog_count := c\<rparr>) = watchdog_limit st"
  by (simp add: watchdog_limit_def lock_held_def)

lemma ticks_count_up:
  "\<not> priv_watchdog_disabled st \<Longrightarrow> \<not> priv_is_working st \<Longrightarrow>
   priv_watchdog_count st + int n \<le> watchdog_limit st + 1 \<Longrightarrow>
   ticks n st = st\<lparr>priv_watchdog_count := priv_watchdog_count st + int n\<rparr>"
proof (induction n arbitrary: st)
  case 0
  then show ?case by simp
next
  case (Suc n)
  let ?st1 = "st\<lparr>priv_watchdog_count := priv_watchdog_count st + 1\<rparr>"
  from Suc.prems have le: "priv_watchdog_count st \<le> watchdog_limit st" by simp
  have step: "priv_watchdog st = (Some True, ?st1)"
    using Suc.prems(1,2) le by (rule watchdog_count_up)
  have "ticks n ?st1 = ?st1\<lparr>priv_watchdog_count := priv_watchdog_count ?st1 + int n\<rparr>"
    using Suc.prems by (intro Suc.IH) simp_all
  then show ?case by (simp add: step add.assoc)
qed

lemma quit_iff:
  "MainloopQuit \<in> set (events (snd (priv_watchdog st))) - set (events st) \<Longrightarrow>
   \<not> priv_watchdog_disabled st \<and> \<not> priv_is_working st \<and> watchdog_limit st < priv_watchdog_count st \<and> priv_can_quit st"
  by (auto simp: priv_watchdog_def watchdog_limit_def Let_def split: if_splits)


lemma watchdog_limit_step: "watchdog_limit (snd (priv_watchdog st)) = watchdog_limit st"
  by (simp add: priv_watchdog_def watchdog_limit_def lock_held_def Let_def
      mainloop_quit_def priv_reset_base_def)

lemma quit_state:
  "mainloop_quit (priv_reset_base st) =
     st\<lparr>events := events st @ (if priv_base st = None then [] else [BaseClose]) @ [MainloopQuit],
        priv_base := None\<rparr>"
  by (cases st) (simp add: mainloop_quit_def priv_reset_base_def)

lemma watchdog_no_quit:
  "\<not> (\<not> priv_watchdog_disabled st \<and> \<not> priv_is_working st \<and>
       watchdog_limit st < priv_watchdog_count st \<and> priv_can_quit st) \<Longrightarrow>
   events (snd (priv_watchdog st)) = events st \<and> priv_base (snd (priv_watchdog st)) = priv_base st"
  by (auto simp: priv_watchdog_def watchdog_limit_def Let_def)

text \<open>
  C3. A tick of the watchdog while \<^verbatim>\<open>_watchdog_disabled\<close> or \<^verbatim>\<open>_is_working\<close> holds
  returns \<^verbatim>\<open>True\<close> (the timer stays) and changes nothing, so no number of such ticks
  ends the daemon. Otherwise, while the count has not passed the timeout that applies
  (\<^verbatim>\<open>_timeout_idle\<close> without a lock, \<^verbatim>\<open>_timeout_locked\<close> with one; \<open>20\<close> and \<open>600\<close>
  after \<^verbatim>\<open>__init__\<close>), a tick adds exactly one to \<^verbatim>\<open>_watchdog_count\<close>, and \<open>n\<close> such
  ticks add \<open>n\<close>. Once the count is above the timeout and \<^verbatim>\<open>_can_quit\<close> holds, the tick
  resets the handle and quits the main loop; in every other case a tick neither touches
  the handle nor quits.
\<close>

theorem watchdog_spec:
  "(priv_watchdog_disabled st \<or> priv_is_working st \<longrightarrow>
      priv_watchdog st = (Some True, st) \<and> ticks n st = st)
   \<and> (\<not> priv_watchdog_disabled st \<and> \<not> priv_is_working st \<and>
        priv_watchdog_count st \<le> watchdog_limit st \<longrightarrow>
      priv_watchdog st = (Some True, st\<lparr>priv_watchdog_count := priv_watchdog_count st + 1\<rparr>))
   \<and> (\<not> priv_watchdog_disabled st \<and> \<not> priv_is_working st \<and>
        priv_watchdog_count st + int n \<le> watchdog_limit st + 1 \<longrightarrow>
      ticks n st = st\<lparr>priv_watchdog_count := priv_watchdog_count st + int n\<rparr>)
   \<and> (\<not> priv_watchdog_disabled st \<and> \<not> priv_is_working st \<and>
        watchdog_limit st < priv_watchdog_count st \<and> priv_can_quit st \<longrightarrow>
      priv_watchdog st =
        (None, st\<lparr>events := events st @ (if priv_base st = None then [] else [BaseClose])
                               @ [MainloopQuit],
                   priv_base := None\<rparr>))
   \<and> (\<not> (\<not> priv_watchdog_disabled st \<and> \<not> priv_is_working st \<and>
           watchdog_limit st < priv_watchdog_count st \<and> priv_can_quit st) \<longrightarrow>
      events (snd (priv_watchdog st)) = events st \<and>
      priv_base (snd (priv_watchdog st)) = priv_base st)
   \<and> watchdog_limit (snd (priv_watchdog st)) = watchdog_limit st
   \<and> priv_timeout_idle init = 20 \<and> priv_timeout_locked init = 600"
proof -
  have "priv_timeout_idle init = 20 \<and> priv_timeout_locked init = 600"
    by (simp add: init_def)
  moreover note watchdog_busy [of st] ticks_busy [of st n] watchdog_count_up [of st]
    ticks_count_up [of st n] watchdog_quit [of st] quit_state [of st]
    watchdog_no_quit [of st] watchdog_limit_step [of st]
  ultimately show ?thesis by metis
qed

theorem watchdog_spec_witness:
  "ticks 21 init = init\<lparr>priv_watchdog_count := 21\<rparr>
   \<and> priv_watchdog (init\<lparr>priv_watchdog_count := 21\<rparr>) =
       (None, init\<lparr>priv_watchdog_count := 21, events := [MainloopQuit]\<rparr>)
   \<and> priv_watchdog (init\<lparr>priv_is_working := True, priv_watchdog_count := 21\<rparr>) =
       (Some True, init\<lparr>priv_is_working := True, priv_watchdog_count := 21\<rparr>)"
proof -
  have l: "watchdog_limit init = 20" "watchdog_limit (init\<lparr>priv_watchdog_count := 21\<rparr>) = 20"
    by (simp_all add: watchdog_limit_def lock_held_def init_def)
  have a: "ticks 21 init = init\<lparr>priv_watchdog_count := 21\<rparr>"
    using watchdog_spec [of init 21] l by (simp add: init_def)
  have b: "priv_watchdog (init\<lparr>priv_watchdog_count := 21\<rparr>) =
       (None, init\<lparr>priv_watchdog_count := 21, events := [MainloopQuit]\<rparr>)"
    using watchdog_spec [of "init\<lparr>priv_watchdog_count := 21\<rparr>" 0] l by (simp add: init_def)
  have c: "priv_watchdog (init\<lparr>priv_is_working := True, priv_watchdog_count := 21\<rparr>) =
       (Some True, init\<lparr>priv_is_working := True, priv_watchdog_count := 21\<rparr>)"
    using watchdog_spec [of "init\<lparr>priv_is_working := True, priv_watchdog_count := 21\<rparr>" 0]
    by simp
  from a b c show ?thesis by simp
qed

subsection \<open>The lazily built handle\<close>

lemma set_cached_options_conf:
  "conf (set_cached_options opts ks b) k =
     (if k \<in> set ks \<and> map_of opts k \<noteq> None then map_of opts k else conf b k)"
  by (induction ks arbitrary: b) (auto split: option.splits)

lemma set_cached_options_rest:
  "repos (set_cached_options opts ks b) = repos b \<and>
   sack (set_cached_options opts ks b) = sack b \<and>
   transaction (set_cached_options opts ks b) = transaction b \<and>
   history (set_cached_options opts ks b) = history b"
  by (induction ks arbitrary: b) (auto split: option.splits)

lemma priv_get_base_build:
  "priv_base st = None \<or> reset \<Longrightarrow>
   priv_get_base L reset load_sack st =
     (Some (fresh_base L load_sack st), st\<lparr>priv_base := Some (fresh_base L load_sack st)\<rparr>)"
  by (simp add: priv_get_base_def fresh_base_def Let_def)

lemma priv_get_base_cached:
  "priv_base st = Some b \<Longrightarrow> priv_get_base L False load_sack st = (Some b, st)"
  by (simp add: priv_get_base_def)

lemma fresh_base_conf:
  "conf (fresh_base L ls st) k =
     (case map_of (priv_config_options st) k of
        Some v \<Rightarrow> Some v
      | None \<Rightarrow> conf (DnfBase L) k)"
proof -
  have "map_of (priv_config_options st) k = None \<longleftrightarrow> k \<notin> set (map fst (priv_config_options st))"
    by (simp add: map_of_eq_None_iff)
  then show ?thesis
    by (auto simp: fresh_base_def priv_get_base_def Let_def setup_base_def
        set_cached_options_conf split: option.splits)
qed

lemma fresh_base_repos:
  "repos (fresh_base L ls st) =
     (if priv_enabled_repos st = [] then repos (DnfBase L)
      else map (\<lambda>r. r\<lparr>enabled := repoid r \<in> set (priv_enabled_repos st)\<rparr>) (repos (DnfBase L)))"
  by (auto simp: fresh_base_def priv_get_base_def Let_def setup_base_def
      set_cached_options_rest set_repo_states_def)

lemma fresh_base_sack:
  "sack (fresh_base L True st) \<noteq> None" "sack (fresh_base L False st) = sack (DnfBase L)"
  by (auto simp: fresh_base_def priv_get_base_def Let_def setup_base_def
      set_cached_options_rest)

lemma fresh_base_transaction:
  "transaction (fresh_base L ls st) = transaction (DnfBase L)"
  "history (fresh_base L ls st) = history (DnfBase L)"
  by (auto simp: fresh_base_def priv_get_base_def Let_def setup_base_def
      set_cached_options_rest)

lemma base_unset:
  "priv_base st = None \<Longrightarrow>
   base L st = (Some (fresh_base L True st), st\<lparr>priv_base := Some (fresh_base L True st)\<rparr>)"
  by (simp add: base_def priv_get_base_build)

lemma base_set: "priv_base st = Some b \<Longrightarrow> base L st = (Some b, st)"
  by (simp add: base_def)

lemma base_idem: "base L (snd (base L st)) = base L st"
  by (cases "priv_base st") (simp_all add: base_unset base_set)

text \<open>
  C4. An access to the property \<^verbatim>\<open>base\<close> with \<^verbatim>\<open>_base\<close> unset constructs the handle,
  with every cached configuration option set on its configuration and, when a list of
  enabled repositories is recorded, every repository enabled or disabled after it, stores
  it and returns it; with \<^verbatim>\<open>_base\<close> set, the access returns it and changes nothing. In
  both cases the value returned is the stored \<^verbatim>\<open>_base\<close> and is not \<^verbatim>\<open>None\<close>.
\<close>

theorem base_lazy_init:
  "(priv_base st = None \<longrightarrow>
      (\<exists>b. base L st = (Some b, st\<lparr>priv_base := Some b\<rparr>)
         \<and> (\<forall>option v. map_of (priv_config_options st) option = Some v \<longrightarrow> conf b option = Some v)
         \<and> (\<forall>option. map_of (priv_config_options st) option = None \<longrightarrow>
               conf b option = conf (DnfBase L) option)
         \<and> (priv_enabled_repos st \<noteq> [] \<longrightarrow>
               repos b = map (\<lambda>r. r\<lparr>enabled := repoid r \<in> set (priv_enabled_repos st)\<rparr>)
                           (repos (DnfBase L)))
         \<and> (priv_enabled_repos st = [] \<longrightarrow> repos b = repos (DnfBase L))
         \<and> sack b \<noteq> None))
   \<and> (\<forall>b. priv_base st = Some b \<longrightarrow> base L st = (Some b, st))
   \<and> fst (base L st) = priv_base (snd (base L st))
   \<and> fst (base L st) \<noteq> None"
proof (cases "priv_base st")
  case None
  let ?b = "fresh_base L True st"
  have "base L st = (Some ?b, st\<lparr>priv_base := Some ?b\<rparr>)"
    using None by (rule base_unset)
  moreover have "\<forall>option v. map_of (priv_config_options st) option = Some v \<longrightarrow> conf ?b option = Some v"
    by (simp add: fresh_base_conf)
  moreover have "\<forall>option. map_of (priv_config_options st) option = None \<longrightarrow>
               conf ?b option = conf (DnfBase L) option"
    by (simp add: fresh_base_conf)
  moreover have "priv_enabled_repos st \<noteq> [] \<longrightarrow>
               repos ?b = map (\<lambda>r. r\<lparr>enabled := repoid r \<in> set (priv_enabled_repos st)\<rparr>)
                           (repos (DnfBase L))"
    by (simp add: fresh_base_repos)
  moreover have "priv_enabled_repos st = [] \<longrightarrow> repos ?b = repos (DnfBase L)"
    by (simp add: fresh_base_repos)
  moreover have "sack ?b \<noteq> None"
    by (rule fresh_base_sack)
  ultimately show ?thesis using None by auto
next
  case (Some b)
  then show ?thesis by (simp add: base_set)
qed

theorem base_lazy_init_witness:
  "priv_base (init\<lparr>priv_config_options := [(''debuglevel'', JInt 5)],
                   priv_enabled_repos := [''updates'']\<rparr>) = None
   \<and> (\<exists>b. fst (base ex_lib (init\<lparr>priv_config_options := [(''debuglevel'', JInt 5)],
                                    priv_enabled_repos := [''updates'']\<rparr>)) = Some b
          \<and> conf b ''debuglevel'' = Some (JInt 5)
          \<and> map enabled (repos b) = [False, True])
   \<and> priv_base tx_state = Some tx_base
   \<and> base ex_lib tx_state = (Some tx_base, tx_state)"
proof -
  let ?st = "init\<lparr>priv_config_options := [(''debuglevel'', JInt 5)],
                   priv_enabled_repos := [''updates'']\<rparr>"
  have n: "priv_base ?st = None" by (simp add: init_def)
  from base_lazy_init [of ?st ex_lib] n
  obtain b where b: "base ex_lib ?st = (Some b, ?st\<lparr>priv_base := Some b\<rparr>)"
    and c: "\<forall>option v. map_of (priv_config_options ?st) option = Some v \<longrightarrow> conf b option = Some v"
    and r: "priv_enabled_repos ?st \<noteq> [] \<longrightarrow>
               repos b = map (\<lambda>r. r\<lparr>enabled := repoid r \<in> set (priv_enabled_repos ?st)\<rparr>)
                           (repos (DnfBase ex_lib))"
    by blast
  from c have "conf b ''debuglevel'' = Some (JInt 5)" by simp
  moreover from r have "map enabled (repos b) = [False, True]"
    by (simp add: ex_lib_def ex_base_def fedora_repo_def updates_repo_def)
  moreover have s: "priv_base tx_state = Some tx_base" by (simp add: tx_state_def)
  moreover from base_lazy_init [of tx_state ex_lib] s
  have "base ex_lib tx_state = (Some tx_base, tx_state)" by blast
  ultimately show ?thesis using n b by simp
qed

subsection \<open>The sack of the handle\<close>

lemma sack_loaded_init: "sack_loaded init"
  by (simp add: sack_loaded_def init_def)

lemma sack_loaded_base:
  assumes "sack_loaded st"
  shows "\<exists>b st1 q. base L st = (Some b, st1) \<and> sack b = Some q \<and> sack_loaded st1"
proof (cases "priv_base st")
  case None
  then show ?thesis
    using fresh_base_sack(1) [of L st] by (auto simp: base_unset sack_loaded_def)
next
  case (Some b)
  then show ?thesis
    using assms by (auto simp: base_set sack_loaded_def)
qed


subsection \<open>Package ids and lookup\<close>

lemma split_no_sep: "c \<notin> set x \<Longrightarrow> split c x = [x]"
  by (induction x) auto

lemma split_append_sep: "c \<notin> set x \<Longrightarrow> split c (x @ c # rest) = x # split c rest"
  by (induction x) auto

lemma split_join:
  "xs \<noteq> [] \<Longrightarrow> \<forall>x\<in>set xs. c \<notin> set x \<Longrightarrow> split c (join [c] xs) = xs"
proof (induction "[c]" xs rule: join.induct)
  case 1
  then show ?case by simp
next
  case (2 x)
  then show ?case by (simp add: split_no_sep)
next
  case (3 x y ys)
  then show ?case by (simp add: split_append_sep)
qed

lemma str_nat_digits: "set (str_nat n) \<subseteq> set digit_chars"
proof (induction n rule: str_nat.induct)
  case (1 n)
  have d: "\<And>k. k < 10 \<Longrightarrow> digit_chars ! k \<in> set digit_chars"
    by (rule nth_mem) (simp add: digit_chars_def)
  show ?case
  proof (cases "n < 10")
    case True
    then show ?thesis using d [of n] by (subst str_nat.simps) simp
  next
    case False
    have "n mod 10 < 10" by simp
    then have "digit_chars ! (n mod 10) \<in> set digit_chars" by (rule d)
    with False 1 show ?thesis by (subst str_nat.simps) simp
  qed
qed

lemma str_int_no_comma: "CHR '','' \<notin> set (str_int i)"
proof -
  have "CHR '','' \<notin> set digit_chars" by (simp add: digit_chars_def)
  then have "\<And>n. CHR '','' \<notin> set (str_nat n)" using str_nat_digits by blast
  then show ?thesis by (simp add: str_int_def)
qed

lemma split_get_id:
  assumes "comma_free p"
  shows "split CHR '','' (priv_get_id p) =
     [name p, str_int (epoch p), version p, release p, arch p, ui_from_repo p]"
proof -
  let ?xs = "[name p, str_int (epoch p), version p, release p, arch p, ui_from_repo p]"
  have "\<forall>x\<in>set ?xs. CHR '','' \<notin> set x"
    using assms str_int_no_comma [of "epoch p"] by (simp add: comma_free_def)
  then have "split CHR '','' (join [CHR '',''] ?xs) = ?xs"
    by (intro split_join) simp_all
  then show ?thesis by (simp add: priv_get_id_def)
qed

lemma first_of_list:
  "(if length f > 0 then (Inr (Some (f ! 0)), s) else (Inr None, s)) =
     (Inr (case f of [] \<Rightarrow> None | x # _ \<Rightarrow> Some x), s)"
  by (cases f) simp_all

lemma find_as_filter: "find P xs = (case filter P xs of [] \<Rightarrow> None | x # _ \<Rightarrow> Some x)"
  by (induction xs) simp_all

lemma sack_query_loaded:
  "base L st = (Some b, st1) \<Longrightarrow> sack b = Some q \<Longrightarrow> sack_query L st = (Inr (b, q), st1)"
  by (simp add: sack_query_def)

lemma priv_get_po_six:
  assumes "split CHR '','' ident = [n, e, v, r, a, repo_id]"
    and "base L st = (Some b, st1)" and "sack b = Some q"
  shows "priv_get_po L ident st =
     (Inr (find (\<lambda>p. name p = n \<and> version p = v \<and> release p = r \<and> arch p = a)
             (if startswith repo_id ''@'' then q_installed q else q_available q)), st1)"
proof -
  have sq: "sack_query L st = (Inr (b, q), st1)"
    using assms(2,3) by (rule sack_query_loaded)
  show ?thesis
    by (auto simp: priv_get_po_def assms(1) sq filter_nvra_def Let_def find_as_filter
        split: list.splits)
qed

lemma priv_get_po_not_six:
  "length (split CHR '','' ident) \<noteq> 6 \<Longrightarrow> priv_get_po L ident st = (Inl ValueError, st)"
  by (auto simp: priv_get_po_def split: list.splits)


lemma find_cases:
  "case find P xs of Some y \<Rightarrow> y \<in> set xs \<and> P y | None \<Rightarrow> \<not> (\<exists>x\<in>set xs. P x)"
  by (induction xs) (auto split: option.splits)

lemma get_id_epoch: "comma_free p \<Longrightarrow> comma_free (p\<lparr>epoch := e\<rparr>)"
  by (simp add: comma_free_def)

lemma get_id_get_po_loaded:
  assumes "comma_free p" and "base L st = (Some b, st1)" and "sack b = Some q"
  shows "split CHR '','' (priv_get_id p) =
           [name p, str_int (epoch p), version p, release p, arch p, ui_from_repo p]
    \<and> (\<exists>res. priv_get_po L (priv_get_id p) st = (Inr res, st1)
          \<and> priv_get_po L (priv_get_id (p\<lparr>epoch := e\<rparr>)) st = (Inr res, st1)
          \<and> (case res of
                Some found \<Rightarrow>
                  found \<in> set (if startswith (ui_from_repo p) ''@''
                                then q_installed q else q_available q)
                  \<and> same_nvra found p
              | None \<Rightarrow>
                  \<not> (\<exists>x \<in> set (if startswith (ui_from_repo p) ''@''
                                  then q_installed q else q_available q). same_nvra x p)))"
proof -
  let ?P = "\<lambda>x. name x = name p \<and> version x = version p \<and> release x = release p \<and> arch x = arch p"
  define Q where "Q = (if startswith (ui_from_repo p) ''@'' then q_installed q else q_available q)"
  have s: "split CHR '','' (priv_get_id p) =
           [name p, str_int (epoch p), version p, release p, arch p, ui_from_repo p]"
    using assms(1) by (rule split_get_id)
  have s': "split CHR '','' (priv_get_id (p\<lparr>epoch := e\<rparr>)) =
           [name p, str_int e, version p, release p, arch p, ui_from_repo p]"
    using split_get_id [OF get_id_epoch [OF assms(1)], of e] by simp
  have r: "priv_get_po L (priv_get_id p) st = (Inr (find ?P Q), st1)"
    unfolding Q_def using s assms(2,3) by (rule priv_get_po_six)
  have r': "priv_get_po L (priv_get_id (p\<lparr>epoch := e\<rparr>)) st = (Inr (find ?P Q), st1)"
    unfolding Q_def using s' assms(2,3) by (rule priv_get_po_six)
  have "case find ?P Q of
          Some found \<Rightarrow> found \<in> set Q \<and> same_nvra found p
        | None \<Rightarrow> \<not> (\<exists>x \<in> set Q. same_nvra x p)"
    unfolding same_nvra_def by (rule find_cases)
  with s r r' show ?thesis unfolding Q_def by blast
qed

text \<open>
  C8. For a package whose name, version, release, architecture and repository fields have
  no comma (the epoch is printed as a number and has none), \<^verbatim>\<open>_get_id\<close> gives an id
  that splits at the commas into exactly these six fields. \<^verbatim>\<open>_get_po\<close> applied to the
  id, in a state whose handle (if there is one) has its sack loaded, queries the
  installed packages when the repository field starts with \<^verbatim>\<open>@\<close> and the available
  ones otherwise, and returns a package of the queried set that agrees with the original
  on name, version, release and architecture when there is one, and \<^verbatim>\<open>None\<close> when
  there is none. The epoch plays no part: the id of the package with any other epoch
  \<open>e\<close> gets the same answer.
\<close>

theorem get_id_get_po:
  assumes "comma_free p" and "sack_loaded st"
  shows "split CHR '','' (priv_get_id p) =
           [name p, str_int (epoch p), version p, release p, arch p, ui_from_repo p]
    \<and> (\<exists>b st1 q res. base L st = (Some b, st1) \<and> sack b = Some q
          \<and> priv_get_po L (priv_get_id p) st = (Inr res, st1)
          \<and> priv_get_po L (priv_get_id (p\<lparr>epoch := e\<rparr>)) st = (Inr res, st1)
          \<and> (case res of
                Some found \<Rightarrow>
                  found \<in> set (if startswith (ui_from_repo p) ''@''
                                then q_installed q else q_available q)
                  \<and> same_nvra found p
              | None \<Rightarrow>
                  \<not> (\<exists>x \<in> set (if startswith (ui_from_repo p) ''@''
                                  then q_installed q else q_available q). same_nvra x p)))"
proof -
  from sack_loaded_base [OF assms(2), of L] obtain b st1 q
    where b: "base L st = (Some b, st1)" and q: "sack b = Some q" by blast
  from get_id_get_po_loaded [OF assms(1) b q, of e] b q show ?thesis by blast
qed

lemma base_init_ex:
  "base ex_lib init = (Some (fresh_base ex_lib True init),
                       init\<lparr>priv_base := Some (fresh_base ex_lib True init)\<rparr>)"
  by (rule base_unset) (simp add: init_def)

lemma sack_init_ex: "sack (fresh_base ex_lib True init) = Some [bash_pkg, vim_pkg]"
  by (simp add: fresh_base_def priv_get_base_def Let_def setup_base_def
      set_cached_options_rest ex_lib_def init_def)

theorem get_id_get_po_witness:
  "comma_free vim_pkg
   \<and> priv_get_id vim_pkg = ''vim,2,9.1,3.fc40,x86_64,updates''
   \<and> fst (priv_get_po ex_lib ''vim,2,9.1,3.fc40,x86_64,updates'' init) = Inr (Some vim_pkg)"
proof -
  have c: "comma_free vim_pkg" by (simp add: comma_free_def vim_pkg_def)
  have i: "priv_get_id vim_pkg = ''vim,2,9.1,3.fc40,x86_64,updates''"
    by (simp add: priv_get_id_def vim_pkg_def str_int_def str_nat.simps digit_chars_def)
  have q: "q_available [bash_pkg, vim_pkg] = [vim_pkg]"
    by (simp add: q_available_def bash_pkg_def vim_pkg_def)
  have n: "\<not> startswith (ui_from_repo vim_pkg) ''@''"
    by (simp add: startswith_def vim_pkg_def)
  from get_id_get_po [OF c sack_loaded_init, of ex_lib 0]
  obtain b st1 q' res where b: "base ex_lib init = (Some b, st1)" and s: "sack b = Some q'"
    and r: "priv_get_po ex_lib (priv_get_id vim_pkg) init = (Inr res, st1)"
    and f: "case res of
                Some found \<Rightarrow>
                  found \<in> set (if startswith (ui_from_repo vim_pkg) ''@''
                                then q_installed q' else q_available q')
                  \<and> same_nvra found vim_pkg
              | None \<Rightarrow>
                  \<not> (\<exists>x \<in> set (if startswith (ui_from_repo vim_pkg) ''@''
                                  then q_installed q' else q_available q'). same_nvra x vim_pkg)"
    by blast
  from b have "b = fresh_base ex_lib True init"
    by (simp add: base_init_ex)
  with s have "q' = [bash_pkg, vim_pkg]"
    by (simp add: sack_init_ex)
  with f have "res = Some vim_pkg"
    by (cases res) (simp_all add: n q same_nvra_def)
  with r i c show ?thesis by simp
qed

subsection \<open>Package attributes\<close>

lemma get_attribute_not_six:
  "length (split CHR '','' ident) \<noteq> 6 \<Longrightarrow> get_attribute L ident attr st = (Inl ValueError, st)"
  by (simp add: get_attribute_def priv_get_po_not_six)

lemma length_six:
  "length xs = 6 \<Longrightarrow> \<exists>n e v r a repo_id. xs = [n, e, v, r, a, repo_id]"
  by (auto simp: length_Suc_conv eval_nat_numeral)

lemma priv_get_po_returns:
  assumes "length (split CHR '','' ident) = 6"
    and "base L st = (Some b, st1)" and "sack b = Some q"
  shows "\<exists>res. priv_get_po L ident st = (Inr res, st1)"
proof -
  from length_six [OF assms(1)] obtain n e v r a repo_id
    where "split CHR '','' ident = [n, e, v, r, a, repo_id]" by blast
  from priv_get_po_six [OF this assms(2,3)] show ?thesis by blast
qed

text \<open>
  C9, as the code has it. \<^verbatim>\<open>get_attribute\<close> answers the serialisation of \<^verbatim>\<open>None\<close> for
  an id of exactly six comma-separated fields that matches no package (in a state whose
  handle, if there is one, has its sack loaded), and for an attribute that is neither in
  \<^verbatim>\<open>FAKE_ATTR\<close> nor present on the package found. An id with any other number of
  fields is not answered: unpacking it in \<^verbatim>\<open>_get_po\<close> raises \<^verbatim>\<open>ValueError\<close>, which
  \<^verbatim>\<open>get_attribute\<close> lets pass.
\<close>

theorem get_attribute_none:
  "(length (split CHR '','' ident) \<noteq> 6 \<longrightarrow>
      get_attribute L ident attr st = (Inl ValueError, st))
   \<and> (length (split CHR '','' ident) = 6 \<and> sack_loaded st \<longrightarrow>
      (\<exists>res st1. priv_get_po L ident st = (Inr res, st1)
         \<and> (res = None \<longrightarrow> get_attribute L ident attr st = (Inr NONE, st1))
         \<and> (\<forall>po. res = Some po \<and> attr \<notin> set FAKE_ATTR \<and> pkg_getattr po attr = None \<longrightarrow>
               get_attribute L ident attr st = (Inr NONE, st1))))"
proof (intro conjI impI)
  assume "length (split CHR '','' ident) \<noteq> 6"
  then show "get_attribute L ident attr st = (Inl ValueError, st)"
    by (rule get_attribute_not_six)
next
  assume a: "length (split CHR '','' ident) = 6 \<and> sack_loaded st"
  then obtain b st1 q where "base L st = (Some b, st1)" "sack b = Some q"
    using sack_loaded_base by blast
  with a obtain res where r: "priv_get_po L ident st = (Inr res, st1)"
    using priv_get_po_returns by blast
  have "res = None \<longrightarrow> get_attribute L ident attr st = (Inr NONE, st1)"
    by (simp add: get_attribute_def r NONE_def)
  moreover have "\<forall>po. res = Some po \<and> attr \<notin> set FAKE_ATTR \<and> pkg_getattr po attr = None \<longrightarrow>
               get_attribute L ident attr st = (Inr NONE, st1)"
    by (simp add: get_attribute_def r NONE_def)
  ultimately show "\<exists>res st1. priv_get_po L ident st = (Inr res, st1)
         \<and> (res = None \<longrightarrow> get_attribute L ident attr st = (Inr NONE, st1))
         \<and> (\<forall>po. res = Some po \<and> attr \<notin> set FAKE_ATTR \<and> pkg_getattr po attr = None \<longrightarrow>
               get_attribute L ident attr st = (Inr NONE, st1))"
    using r by blast
qed

text \<open>
  C9 as stated ("never raises for an unresolvable input") fails on the id \<^verbatim>\<open>bash\<close>,
  which names no package: the call raises \<^verbatim>\<open>ValueError\<close> instead of answering
  \<^verbatim>\<open>null\<close>.
\<close>

theorem get_attribute_raises:
  "fst (get_attribute ex_lib ''bash'' ''summary'' init) = Inl ValueError
   \<and> fst (get_attribute ex_lib ''bash'' ''summary'' init) \<noteq> Inr NONE"
  by (simp add: get_attribute_def priv_get_po_def)

theorem get_attribute_none_witness:
  "length (split CHR '','' ''emacs,0,29.1,1.fc40,x86_64,fedora'') = 6
   \<and> fst (get_attribute ex_lib ''emacs,0,29.1,1.fc40,x86_64,fedora'' ''summary'' init) = Inr ''null''
   \<and> length (split CHR '','' ''vim,2,9.1,3.fc40,x86_64,updates'') = 6
   \<and> fst (get_attribute ex_lib ''vim,2,9.1,3.fc40,x86_64,updates'' ''license'' init) = Inr ''null''
   \<and> fst (get_attribute ex_lib ''vim,2,9.1'' ''summary'' init) = Inl ValueError"
proof -
  let ?st1 = "init\<lparr>priv_base := Some (fresh_base ex_lib True init)\<rparr>"
  have six: "length (split CHR '','' ''emacs,0,29.1,1.fc40,x86_64,fedora'') = 6"
    "length (split CHR '','' ''vim,2,9.1,3.fc40,x86_64,updates'') = 6"
    by simp_all
  have q: "q_available [bash_pkg, vim_pkg] = [vim_pkg]"
    by (simp add: q_available_def bash_pkg_def vim_pkg_def)
  have e: "priv_get_po ex_lib ''emacs,0,29.1,1.fc40,x86_64,fedora'' init = (Inr None, ?st1)"
    by (simp add: priv_get_po_def sack_query_def base_init_ex sack_init_ex startswith_def
        filter_nvra_def q) (simp add: vim_pkg_def)
  have v: "priv_get_po ex_lib ''vim,2,9.1,3.fc40,x86_64,updates'' init = (Inr (Some vim_pkg), ?st1)"
    by (simp add: priv_get_po_def sack_query_def base_init_ex sack_init_ex startswith_def
        filter_nvra_def q) (simp add: vim_pkg_def)
  have a: "''license'' \<notin> set FAKE_ATTR \<and> pkg_getattr vim_pkg ''license'' = None"
    by (simp add: FAKE_ATTR_def pkg_getattr_def vim_pkg_def)
  have 1: "get_attribute ex_lib ''emacs,0,29.1,1.fc40,x86_64,fedora'' ''summary'' init = (Inr NONE, ?st1)"
    using get_attribute_none [of "''emacs,0,29.1,1.fc40,x86_64,fedora''" ex_lib "''summary''" init]
      six(1) sack_loaded_init e
    by auto
  have 2: "get_attribute ex_lib ''vim,2,9.1,3.fc40,x86_64,updates'' ''license'' init = (Inr NONE, ?st1)"
    using get_attribute_none [of "''vim,2,9.1,3.fc40,x86_64,updates''" ex_lib "''license''" init]
      six(2) sack_loaded_init v a
    by auto
  have 3: "get_attribute ex_lib ''vim,2,9.1'' ''summary'' init = (Inl ValueError, init)"
    using get_attribute_none [of "''vim,2,9.1''" ex_lib "''summary''" init]
    by simp
  from six 1 2 3 show ?thesis by (simp add: NONE_def)
qed


subsection \<open>The GPG key import callback\<close>

text \<open>
  C10. A call of \<^verbatim>\<open>_handle_gpg_import\<close> for a key id that is not in \<^verbatim>\<open>_gpg_confirm\<close>
  records the key as \<^verbatim>\<open>False\<close>, sends the signal \<^verbatim>\<open>GPGImport\<close> for it exactly once
  (one event is added) and returns \<^verbatim>\<open>False\<close>. For a key id already recorded the call
  returns the recorded answer and changes nothing; so the answer is \<^verbatim>\<open>True\<close> only for a
  key recorded as confirmed before the call.
\<close>

theorem handle_gpg_import_spec:
  "(priv_gpg_confirm st (gpg_hexkeyid info) = None \<longrightarrow>
      priv_handle_gpg_import info st =
        (Inr False,
         st\<lparr>priv_gpg_confirm := (priv_gpg_confirm st)(gpg_hexkeyid info \<mapsto> False),
            events := events st @
              [GPGImport (priv_get_id (gpg_po info)) (gpg_userid info) (gpg_hexkeyid info)
                 (gpg_keyurl info) (gpg_timestamp info)]\<rparr>))
   \<and> (\<forall>confirmed. priv_gpg_confirm st (gpg_hexkeyid info) = Some confirmed \<longrightarrow>
         priv_handle_gpg_import info st = (Inr confirmed, st))
   \<and> (fst (priv_handle_gpg_import info st) = Inr True \<longrightarrow>
         priv_gpg_confirm st (gpg_hexkeyid info) = Some True)"
  by (cases "priv_gpg_confirm st (gpg_hexkeyid info)")
     (simp_all add: priv_handle_gpg_import_def Let_def)

theorem handle_gpg_import_witness:
  "priv_gpg_confirm init ''A1B2C3D4'' = None
   \<and> priv_handle_gpg_import
        \<lparr>gpg_po = vim_pkg, gpg_userid = ''Fedora'', gpg_hexkeyid = ''A1B2C3D4'',
         gpg_keyurl = ''file:///etc/pki/rpm-gpg/key'', gpg_fingerprint = ''FF00'',
         gpg_timestamp = 1700000000\<rparr> init =
       (Inr False,
        init\<lparr>priv_gpg_confirm := [''A1B2C3D4'' \<mapsto> False],
             events := [GPGImport ''vim,2,9.1,3.fc40,x86_64,updates'' ''Fedora'' ''A1B2C3D4''
                          ''file:///etc/pki/rpm-gpg/key'' 1700000000]\<rparr>)
   \<and> priv_gpg_confirm (init\<lparr>priv_gpg_confirm := [''A1B2C3D4'' \<mapsto> True]\<rparr>) ''A1B2C3D4''
       = Some True
   \<and> priv_handle_gpg_import
        \<lparr>gpg_po = vim_pkg, gpg_userid = ''Fedora'', gpg_hexkeyid = ''A1B2C3D4'',
         gpg_keyurl = ''file:///etc/pki/rpm-gpg/key'', gpg_fingerprint = ''FF00'',
         gpg_timestamp = 1700000000\<rparr> (init\<lparr>priv_gpg_confirm := [''A1B2C3D4'' \<mapsto> True]\<rparr>) =
       (Inr True, init\<lparr>priv_gpg_confirm := [''A1B2C3D4'' \<mapsto> True]\<rparr>)"
proof -
  have n: "priv_gpg_confirm init ''A1B2C3D4'' = None" by (simp add: init_def)
  have i: "priv_get_id vim_pkg = ''vim,2,9.1,3.fc40,x86_64,updates''"
    by (simp add: priv_get_id_def vim_pkg_def str_int_def str_nat.simps digit_chars_def)
  have 1: "priv_handle_gpg_import
        \<lparr>gpg_po = vim_pkg, gpg_userid = ''Fedora'', gpg_hexkeyid = ''A1B2C3D4'',
         gpg_keyurl = ''file:///etc/pki/rpm-gpg/key'', gpg_fingerprint = ''FF00'',
         gpg_timestamp = 1700000000\<rparr> init =
       (Inr False,
        init\<lparr>priv_gpg_confirm := [''A1B2C3D4'' \<mapsto> False],
             events := [GPGImport ''vim,2,9.1,3.fc40,x86_64,updates'' ''Fedora'' ''A1B2C3D4''
                          ''file:///etc/pki/rpm-gpg/key'' 1700000000]\<rparr>)"
    using handle_gpg_import_spec [of init
        "\<lparr>gpg_po = vim_pkg, gpg_userid = ''Fedora'', gpg_hexkeyid = ''A1B2C3D4'',
         gpg_keyurl = ''file:///etc/pki/rpm-gpg/key'', gpg_fingerprint = ''FF00'',
         gpg_timestamp = 1700000000\<rparr>"] n i
    by (simp add: init_def)
  have 2: "priv_handle_gpg_import
        \<lparr>gpg_po = vim_pkg, gpg_userid = ''Fedora'', gpg_hexkeyid = ''A1B2C3D4'',
         gpg_keyurl = ''file:///etc/pki/rpm-gpg/key'', gpg_fingerprint = ''FF00'',
         gpg_timestamp = 1700000000\<rparr> (init\<lparr>priv_gpg_confirm := [''A1B2C3D4'' \<mapsto> True]\<rparr>) =
       (Inr True, init\<lparr>priv_gpg_confirm := [''A1B2C3D4'' \<mapsto> True]\<rparr>)"
    using handle_gpg_import_spec [of "init\<lparr>priv_gpg_confirm := [''A1B2C3D4'' \<mapsto> True]\<rparr>"
        "\<lparr>gpg_po = vim_pkg, gpg_userid = ''Fedora'', gpg_hexkeyid = ''A1B2C3D4'',
         gpg_keyurl = ''file:///etc/pki/rpm-gpg/key'', gpg_fingerprint = ''FF00'',
         gpg_timestamp = 1700000000\<rparr>"]
    by auto
  from n 1 2 show ?thesis by simp
qed

subsection \<open>Enabling repositories\<close>

lemma priv_reset_base_fields:
  "priv_base (priv_reset_base st) = None"
  "priv_enabled_repos (priv_reset_base st) = priv_enabled_repos st"
  "priv_config_options (priv_reset_base st) = priv_config_options st"
  by (simp_all add: priv_reset_base_def)

lemma fresh_base_cong:
  "priv_config_options st = priv_config_options st' \<Longrightarrow>
   priv_enabled_repos st = priv_enabled_repos st' \<Longrightarrow>
   fresh_base L ls st = fresh_base L ls st'"
  by (simp add: fresh_base_def priv_get_base_def Let_def)

lemma set_enabled_repos_result:
  "set_enabled_repos L repo_ids st =
     (Inr (),
      (priv_reset_base (st\<lparr>priv_enabled_repos := repo_ids\<rparr>))
        \<lparr>priv_base := Some (setup_base L (fresh_base L False (st\<lparr>priv_enabled_repos := repo_ids\<rparr>)))\<rparr>)"
proof -
  let ?st1 = "st\<lparr>priv_enabled_repos := repo_ids\<rparr>"
  have f: "fresh_base L False (priv_reset_base ?st1) = fresh_base L False ?st1"
    by (rule fresh_base_cong) (simp_all add: priv_reset_base_fields)
  show ?thesis
    by (simp add: set_enabled_repos_def Let_def priv_get_base_build f)
qed

lemma setup_base_fields:
  "repos (setup_base L b) = repos b" "conf (setup_base L b) = conf b"
  "sack (setup_base L b) \<noteq> None"
  by (simp_all add: setup_base_def)

text \<open>
  What \<^verbatim>\<open>set_enabled_repos(repo_ids)\<close> does: it returns with \<^verbatim>\<open>repo_ids\<close> stored as
  the list of enabled repositories and with a newly built handle whose sack is loaded
  and which has the repositories of a new handle. When \<^verbatim>\<open>repo_ids\<close> is not empty, a
  repository of the handle is enabled if and only if its id is in \<^verbatim>\<open>repo_ids\<close>. When
  \<^verbatim>\<open>repo_ids\<close> is empty, the test \<^verbatim>\<open>if self._enabled_repos\<close> of \<^verbatim>\<open>_get_base\<close> is
  false, the loop over the repositories is not run and the repositories are those of a
  new handle, enabled ones among them.
\<close>

lemma set_enabled_repos_handle:
  "\<exists>b st'. set_enabled_repos L repo_ids st = (Inr (), st')
     \<and> priv_enabled_repos st' = repo_ids
     \<and> priv_base st' = Some b
     \<and> sack b \<noteq> None
     \<and> map repoid (repos b) = map repoid (repos (DnfBase L))
     \<and> (repo_ids \<noteq> [] \<longrightarrow> (\<forall>r \<in> set (repos b). enabled r \<longleftrightarrow> repoid r \<in> set repo_ids))
     \<and> (repo_ids = [] \<longrightarrow> repos b = repos (DnfBase L))"
proof -
  let ?st1 = "st\<lparr>priv_enabled_repos := repo_ids\<rparr>"
  let ?b = "setup_base L (fresh_base L False ?st1)"
  let ?st' = "(priv_reset_base ?st1)\<lparr>priv_base := Some ?b\<rparr>"
  have r: "repos ?b =
     (if repo_ids = [] then repos (DnfBase L)
      else map (\<lambda>r. r\<lparr>enabled := repoid r \<in> set repo_ids\<rparr>) (repos (DnfBase L)))"
    by (simp add: setup_base_fields fresh_base_repos)
  have "set_enabled_repos L repo_ids st = (Inr (), ?st')"
    by (rule set_enabled_repos_result)
  moreover have "priv_enabled_repos ?st' = repo_ids"
    by (simp add: priv_reset_base_fields)
  moreover have "priv_base ?st' = Some ?b" by simp
  moreover have "sack ?b \<noteq> None" by (rule setup_base_fields)
  moreover have "map repoid (repos ?b) = map repoid (repos (DnfBase L))"
    by (simp add: r comp_def)
  moreover have "repo_ids \<noteq> [] \<longrightarrow> (\<forall>r \<in> set (repos ?b). enabled r \<longleftrightarrow> repoid r \<in> set repo_ids)"
    by (auto simp: r)
  moreover have "repo_ids = [] \<longrightarrow> repos ?b = repos (DnfBase L)"
    by (simp only: r) simp
  ultimately show ?thesis by blast
qed

lemma set_enabled_repos_updates:
  "map_option (\<lambda>b. map (\<lambda>r. (repoid r, enabled r)) (repos b))
       (priv_base (snd (set_enabled_repos ex_lib [''updates''] init)))
     = Some [(''fedora'', False), (''updates'', True)]"
  by (simp add: set_enabled_repos_result setup_base_fields fresh_base_repos
      ex_lib_def ex_base_def fedora_repo_def updates_repo_def)

text \<open>
  C5 does not hold of the code, which breaks its own docstring (\<^verbatim>\<open>Enable a list of
  repos, disable the ones not in list\<close>) at the empty list. After
  \<^verbatim>\<open>set_enabled_repos([])\<close> on a new daemon, the stored list is \<^verbatim>\<open>[]\<close> and the handle
  has been rebuilt, but the repository \<^verbatim>\<open>fedora\<close>, which a new handle has enabled and
  which is not in the list, is still enabled: \<^verbatim>\<open>_get_base\<close> runs the loop that enables
  and disables only under \<^verbatim>\<open>if self._enabled_repos:\<close>, and the empty list is false
  there, as is the value \<^verbatim>\<open>__init__\<close> gives the attribute. The handle that
  \<^verbatim>\<open>_get_base(reset=True, load_sack=False)\<close> returns in \<^verbatim>\<open>set_enabled_repos\<close> has
  \<^verbatim>\<open>fedora\<close> enabled already, before the sack is loaded. With the list
  \<^verbatim>\<open>['updates']\<close> the same daemon disables \<^verbatim>\<open>fedora\<close>
  (\<open>set_enabled_repos_updates\<close>).
\<close>

theorem set_enabled_repos_empty:
  "priv_enabled_repos (snd (set_enabled_repos ex_lib [] init)) = []
   \<and> map_option (\<lambda>b. map (\<lambda>r. (repoid r, enabled r)) (repos b))
       (fst (priv_get_base ex_lib True False
          (priv_reset_base (init\<lparr>priv_enabled_repos := []\<rparr>))))
     = Some [(''fedora'', True), (''updates'', False)]
   \<and> map_option (\<lambda>b. map (\<lambda>r. (repoid r, enabled r)) (repos b))
       (priv_base (snd (set_enabled_repos ex_lib [] init)))
     = Some [(''fedora'', True), (''updates'', False)]
   \<and> ''fedora'' \<notin> set ([] :: string list)"
  by (simp add: set_enabled_repos_result setup_base_fields fresh_base_repos
      priv_get_base_build priv_reset_base_fields ex_lib_def ex_base_def fedora_repo_def
      updates_repo_def)

subsection \<open>Setting an option\<close>

lemma with_base_some: "base L st = (Some b, st1) \<Longrightarrow> with_base L st f = f b st1"
  by (simp add: with_base_def)

lemma base_again: "base L st = (Some b, st1) \<Longrightarrow> base L st1 = (Some b, st1)"
  using base_idem [of L st] by simp

lemma base_some: "\<exists>b st1. base L st = (Some b, st1)"
  by (cases "priv_base st") (auto simp: base_unset base_set)

lemma base_stored: "base L st = (Some b, st1) \<Longrightarrow> priv_base st1 = Some b"
  by (cases "priv_base st") (auto simp: base_unset base_set)

lemma base_keeps_options:
  "base L st = (ob, st1) \<Longrightarrow> priv_config_options st1 = priv_config_options st"
  by (cases "priv_base st") (auto simp: base_unset base_set)

lemma map_of_update: "map_of (AList.update k v al) k = Some v"
  by (simp add: update_conv')

lemma set_option_result:
  assumes l: "loads L val = Some v"
    and b: "base L (st\<lparr>priv_config_options := AList.update option v (priv_config_options st)\<rparr>)
              = (Some b, st1)"
  shows "set_option_cfg L option val st =
     (if conf b option \<noteq> None
      then (Inr True, st1\<lparr>priv_base := Some (b\<lparr>conf := (conf b)(option \<mapsto> v),
                                                 repos := set_repo_option option v (repos b)\<rparr>)\<rparr>)
      else (Inr False, st1))"
proof -
  let ?b2 = "b\<lparr>conf := (conf b)(option \<mapsto> v)\<rparr>"
  have b1: "base L st1 = (Some b, st1)" using b by (rule base_again)
  have b2: "base L (st1\<lparr>priv_base := Some ?b2\<rparr>) = (Some ?b2, st1\<lparr>priv_base := Some ?b2\<rparr>)"
    by (rule base_set) simp
  show ?thesis
    by (simp add: set_option_cfg_def l Let_def with_base_some [OF b] with_base_some [OF b1]
        with_base_some [OF b2])
qed

text \<open>
  What \<^verbatim>\<open>set_option(option, value)\<close> does when \<^verbatim>\<open>value\<close> decodes to \<open>v\<close>: it records
  \<open>v\<close> under \<^verbatim>\<open>option\<close> in \<^verbatim>\<open>_config_options\<close> and returns \<^verbatim>\<open>True\<close> if and only if
  the configuration of the handle \<open>b\<close> it then reads through \<^verbatim>\<open>self.base\<close> has an
  attribute \<^verbatim>\<open>option\<close> (a handle built by that access has had the option set on its
  configuration already). When it returns \<^verbatim>\<open>True\<close>, the handle the daemon holds afterwards has \<open>v\<close>
  as the option in its configuration and in every repository that was enabled and had the
  attribute; every other repository is as it was. When it returns \<^verbatim>\<open>False\<close>, nothing
  but the cache (and the handle, if the access built it) has changed.
\<close>

lemma set_option_handle:
  assumes "loads L val = Some v"
  shows "\<exists>b st1 r st'.
      base L (st\<lparr>priv_config_options := AList.update option v (priv_config_options st)\<rparr>)
        = (Some b, st1)
    \<and> set_option_cfg L option val st = (Inr r, st')
    \<and> map_of (priv_config_options st') option = Some v
    \<and> (r \<longleftrightarrow> conf b option \<noteq> None)
    \<and> (if r then
          (\<exists>b'. priv_base st' = Some b'
             \<and> conf b' option = Some v
             \<and> length (repos b') = length (repos b)
             \<and> (\<forall>i < length (repos b).
                  if enabled (repos b ! i) \<and> repo_attrs (repos b ! i) option \<noteq> None
                  then repo_attrs (repos b' ! i) option = Some v
                     \<and> repos b' ! i = (repos b ! i)\<lparr>repo_attrs := (repo_attrs (repos b ! i))(option \<mapsto> v)\<rparr>
                  else repos b' ! i = repos b ! i))
        else st' = st1)"
proof -
  let ?st0 = "st\<lparr>priv_config_options := AList.update option v (priv_config_options st)\<rparr>"
  obtain b st1 where b: "base L ?st0 = (Some b, st1)"
    using base_some by blast
  let ?b' = "b\<lparr>conf := (conf b)(option \<mapsto> v), repos := set_repo_option option v (repos b)\<rparr>"
  let ?st' = "if conf b option \<noteq> None then st1\<lparr>priv_base := Some ?b'\<rparr> else st1"
  have res: "set_option_cfg L option val st = (Inr (conf b option \<noteq> None), ?st')"
    using set_option_result [OF assms b] by simp
  have o1: "priv_config_options st1 = AList.update option v (priv_config_options st)"
    using base_keeps_options [OF b] by simp
  have opts: "map_of (priv_config_options ?st') option = Some v"
    by (simp add: o1 map_of_update)
  have reps: "\<forall>i < length (repos b).
                  if enabled (repos b ! i) \<and> repo_attrs (repos b ! i) option \<noteq> None
                  then repo_attrs (repos ?b' ! i) option = Some v
                     \<and> repos ?b' ! i = (repos b ! i)\<lparr>repo_attrs := (repo_attrs (repos b ! i))(option \<mapsto> v)\<rparr>
                  else repos ?b' ! i = repos b ! i"
    by (simp add: set_repo_option_def)
  show ?thesis
  proof (cases "conf b option \<noteq> None")
    case True
    have "priv_base ?st' = Some ?b' \<and> conf ?b' option = Some v
        \<and> length (repos ?b') = length (repos b)"
      using True by (simp add: set_repo_option_def)
    with b res opts reps True show ?thesis by (intro exI [of _ b] exI [of _ st1] exI [of _ True] exI [of _ ?st']) auto
  next
    case False
    with b res opts show ?thesis by (intro exI [of _ b] exI [of _ st1] exI [of _ False] exI [of _ ?st']) auto
  qed
qed

text \<open>
  A consequence of the order of the statements: with no handle yet, the access
  \<^verbatim>\<open>self.base\<close> builds one and \<^verbatim>\<open>_get_base\<close> sets every cached option on its
  configuration, the one just recorded among them, so the call returns \<^verbatim>\<open>True\<close> for any
  option name.
\<close>

lemma set_option_unset_base:
  assumes "loads L val = Some v" and "priv_base st = None"
  shows "fst (set_option_cfg L option val st) = Inr True"
proof -
  let ?st0 = "st\<lparr>priv_config_options := AList.update option v (priv_config_options st)\<rparr>"
  have n: "priv_base ?st0 = None" using assms(2) by simp
  have b: "base L ?st0 = (Some (fresh_base L True ?st0), ?st0\<lparr>priv_base := Some (fresh_base L True ?st0)\<rparr>)"
    using n by (rule base_unset)
  have "conf (fresh_base L True ?st0) option = Some v"
    by (simp add: fresh_base_conf map_of_update)
  then show ?thesis
    using set_option_result [OF assms(1) b] by simp
qed

text \<open>
  C6 does not hold of the code: whether \<^verbatim>\<open>set_option\<close> returns \<^verbatim>\<open>True\<close> for a name
  that the configuration does not have depends on whether the daemon holds a handle.
  The configuration of the library's handle has no attribute \<^verbatim>\<open>nosuch\<close>. On a new
  daemon, which has no handle yet, \<^verbatim>\<open>set_option('nosuch', 'true')\<close> returns \<^verbatim>\<open>True\<close>:
  the call caches the option first, the access \<^verbatim>\<open>self.base\<close> in the test then
  builds the handle, and \<^verbatim>\<open>_get_base\<close> sets every cached option on the new
  configuration, so that \<^verbatim>\<open>hasattr\<close> is true of any name and the branch
  \<^verbatim>\<open>return False\<close> cannot be reached. On the same daemon after one access to
  \<^verbatim>\<open>base\<close>, the same call returns \<^verbatim>\<open>False\<close>.
\<close>

theorem set_option_unknown_name:
  "conf (DnfBase ex_lib) ''nosuch'' = None
   \<and> priv_base init = None
   \<and> fst (set_option_cfg ex_lib ''nosuch'' ''true'' init) = Inr True
   \<and> fst (set_option_cfg ex_lib ''nosuch'' ''true'' (snd (base ex_lib init))) = Inr False"
proof -
  let ?b = "fresh_base ex_lib True init"
  let ?st1 = "init\<lparr>priv_base := Some ?b\<rparr>"
  let ?st2 = "?st1\<lparr>priv_config_options :=
      AList.update ''nosuch'' (JBool True) (priv_config_options ?st1)\<rparr>"
  have l: "loads ex_lib ''true'' = Some (JBool True)" by (simp add: ex_lib_def)
  have n: "priv_base init = None" by (simp add: init_def)
  have c: "conf (DnfBase ex_lib) ''nosuch'' = None" by (simp add: ex_lib_def ex_base_def)
  have t: "fst (set_option_cfg ex_lib ''nosuch'' ''true'' init) = Inr True"
    using l n by (rule set_option_unset_base)
  have b: "base ex_lib ?st2 = (Some ?b, ?st2)" by (rule base_set) simp
  have "conf ?b ''nosuch'' = None" by (simp add: fresh_base_conf c init_def)
  with set_option_result [OF l b] have "fst (set_option_cfg ex_lib ''nosuch'' ''true'' ?st1) = Inr False"
    by simp
  with c n t show ?thesis by (simp add: base_init_ex)
qed

subsection \<open>History by days\<close>

lemma history_loop_scan:
  "i \<le> length hs \<Longrightarrow>
   history_loop L hs now start end' i result =
     (case scan L now start end' (drop i hs) of
        Inl err \<Rightarrow> Inl err
      | Inr found \<Rightarrow> Inr (result @ found))"
proof (induction L hs now start end' i result rule: history_loop.induct)
  case (1 L hs now start end' i result)
  show ?case
  proof (cases "i < length hs")
    case False
    with 1 show ?thesis by (subst history_loop.simps) simp
  next
    case True
    then have d: "drop i hs = hs ! i # drop (i + 1) hs"
      by (simp add: Cons_nth_drop_Suc)
    from True have le: "i + 1 \<le> length hs" by simp
    show ?thesis
    proof (cases "end_timestamp (hs ! i)")
      case None
      with True 1(1) [OF True refl None le] show ?thesis
        by (subst history_loop.simps) (simp add: d)
    next
      case (Some t)
      show ?thesis
      proof (cases "t = 0")
        case True
        with \<open>i < length hs\<close> Some 1(2) [OF \<open>i < length hs\<close> refl Some True le] show ?thesis
          by (subst history_loop.simps) (simp add: d)
      next
        case False
        note nz = this
        show ?thesis
        proof (cases "fromtimestamp L t")
          case (Inl err)
          with \<open>i < length hs\<close> Some nz show ?thesis
            by (subst history_loop.simps) (simp add: d)
        next
          case (Inr tm)
          show ?thesis
          proof (cases "delta_days now tm < start")
            case True
            with \<open>i < length hs\<close> Some nz Inr
              1(3) [OF \<open>i < length hs\<close> refl Some nz Inr True le]
            show ?thesis
              by (subst history_loop.simps) (simp add: d)
          next
            case False
            note ns = this
            show ?thesis
            proof (cases "delta_days now tm > end'")
              case True
              with \<open>i < length hs\<close> Some nz Inr ns show ?thesis
                by (subst history_loop.simps) (simp add: d)
            next
              case False
              with \<open>i < length hs\<close> Some nz Inr ns
                1(4) [OF \<open>i < length hs\<close> refl Some nz Inr ns False le]
              show ?thesis
                by (subst history_loop.simps) (simp add: d split: sum.splits)
            qed
          qed
        qed
      qed
    qed
  qed
qed

lemma scan_stops: "stops L now start end' x \<Longrightarrow> scan L now start end' (x # xs) = Inr []"
  by (auto simp: stops_def has_end_def converts_def age_def split: option.splits sum.splits)

lemma scan_passes:
  "converts L x \<Longrightarrow> \<not> stops L now start end' x \<Longrightarrow>
   scan L now start end' (x # xs) =
     (case scan L now start end' xs of
        Inl err \<Rightarrow> Inl err
      | Inr found \<Rightarrow> Inr (if qualifies L now start end' x then x # found else found))"
  by (auto simp: stops_def qualifies_def has_end_def converts_def age_def
      split: option.splits sum.splits)

lemma scan_filter_takeWhile:
  "list_all (converts L) (takeWhile (\<lambda>ht. \<not> stops L now start end' ht) hs) \<Longrightarrow>
   scan L now start end' hs =
     Inr (filter (qualifies L now start end')
            (takeWhile (\<lambda>ht. \<not> stops L now start end' ht) hs))"
proof (induction hs)
  case Nil
  then show ?case by simp
next
  case (Cons x xs)
  show ?case
  proof (cases "stops L now start end' x")
    case True
    then show ?thesis by (simp only: scan_stops) simp
  next
    case False
    with Cons.prems have c: "converts L x"
      and p: "list_all (converts L) (takeWhile (\<lambda>ht. \<not> stops L now start end' ht) xs)"
      by simp_all
    from False show ?thesis
      by (simp only: scan_passes [OF c False] Cons.IH [OF p]) simp
  qed
qed

lemma scan_raises:
  "list_all (converts L) pre \<Longrightarrow> \<forall>x\<in>set pre. \<not> stops L now start end' x \<Longrightarrow>
   end_timestamp ht = Some t \<Longrightarrow> t \<noteq> 0 \<Longrightarrow> fromtimestamp L t = Inl err \<Longrightarrow>
   scan L now start end' (pre @ ht # post) = Inl err"
proof (induction pre)
  case Nil
  then show ?case by simp
next
  case (Cons x xs)
  then have ih: "scan L now start end' (xs @ ht # post) = Inl err" by simp
  from Cons.prems have c: "converts L x" and n: "\<not> stops L now start end' x" by simp_all
  have "scan L now start end' (x # (xs @ ht # post)) = Inl err"
    by (simp only: scan_passes [OF c n] ih) simp
  then show ?case by simp
qed

lemma scan_has_end:
  "scan L now start end' hs = Inr found \<Longrightarrow>
   \<forall>ht\<in>set found. \<exists>t tm. end_timestamp ht = Some t \<and> fromtimestamp L t = Inr tm"
  by (induction hs arbitrary: found) (auto split: option.splits if_splits sum.splits)

lemma id_time_list:
  "\<forall>ht\<in>set xs. \<exists>t tm. end_timestamp ht = Some t \<and> fromtimestamp L t = Inr tm \<Longrightarrow>
   \<exists>pairs. priv_get_id_time_list L xs = Inr pairs \<and>
     map (\<lambda>p. JList [JInt (fst p), JStr (snd p)]) pairs = map (id_time L) xs"
  by (induction xs) (auto simp: id_time_def)

lemma get_history_by_days_scan:
  assumes "base L st = (Some b, st1)"
  shows "get_history_by_days L now start end' st =
     (case scan L now start end' (history b) of
        Inl err \<Rightarrow> (Inl err, st1)
      | Inr found \<Rightarrow> (Inr (json_dumps (JList (map (id_time L) found))), st1))"
proof -
  have l: "history_loop L (history b) now start end' 0 [] = scan L now start end' (history b)"
    using history_loop_scan [of 0 "history b" L now start end' "[]"]
    by (simp split: sum.splits)
  show ?thesis
  proof (cases "scan L now start end' (history b)")
    case (Inl err)
    then show ?thesis
      by (simp add: get_history_by_days_def with_base_some [OF assms] l)
  next
    case (Inr found)
    from id_time_list [OF scan_has_end [OF Inr]] obtain pairs
      where "priv_get_id_time_list L found = Inr pairs"
        and "map (\<lambda>p. JList [JInt (fst p), JStr (snd p)]) pairs = map (id_time L) found"
      by blast
    with Inr show ?thesis
      by (simp add: get_history_by_days_def with_base_some [OF assms] l)
  qed
qed

lemma filter_takeWhile_sorted:
  "oldest_last L now hs \<Longrightarrow>
   filter (qualifies L now start end') (takeWhile (\<lambda>ht. \<not> stops L now start end' ht) hs) =
   filter (qualifies L now start end') hs"
proof (induction hs)
  case Nil
  then show ?case by simp
next
  case (Cons x xs)
  from Cons.prems have s: "oldest_last L now xs"
    and o: "\<forall>y\<in>set xs. has_end x \<and> has_end y \<longrightarrow> age L now x \<le> age L now y"
    by (simp_all add: oldest_last_def)
  show ?case
  proof (cases "stops L now start end' x")
    case True
    then have "\<not> qualifies L now start end' x" by (auto simp: stops_def qualifies_def)
    moreover have "\<forall>y\<in>set xs. \<not> qualifies L now start end' y"
      using True o by (fastforce simp: stops_def qualifies_def)
    ultimately show ?thesis using True by (simp add: filter_empty_conv)
  next
    case False
    then show ?thesis using Cons.IH [OF s] by simp
  qed
qed

lemma list_all_takeWhile: "list_all P xs \<Longrightarrow> list_all P (takeWhile Q xs)"
  by (induction xs) simp_all

text \<open>
  C7, as the code has it. The age of a transaction is \<^verbatim>\<open>(now - tm).days\<close>: the whole
  days, rounded down, between the local date and time \<^verbatim>\<open>datetime.now()\<close> and the local
  date and time \<^verbatim>\<open>datetime.fromtimestamp\<close> gives for its end timestamp, both as the
  wall clock of the machine shows them. \<^verbatim>\<open>get_history_by_days(start, end)\<close> reads the
  history from the front and stops at the first transaction that has an end timestamp,
  is at least \<^verbatim>\<open>start\<close> days old and is more than \<^verbatim>\<open>end\<close> days old (the
  \<^verbatim>\<open>break\<close>).

  \<^item> When \<^verbatim>\<open>datetime.fromtimestamp\<close> converts the end timestamp of every transaction
    before that point, the call returns the pairs \<^verbatim>\<open>(tid, isodate)\<close> of exactly the
    transactions before that point that have an end timestamp and an age between
    \<^verbatim>\<open>start\<close> and \<^verbatim>\<open>end\<close> inclusive, in history order.
  \<^item> When it raises for the end timestamp of a transaction, and converts those of all
    transactions before it, none of which stops the scan, the call raises that
    exception.
  \<^item> When it converts every end timestamp of the history and no entry of the history
    is younger than an earlier one, the pairs returned are those of all the qualifying
    transactions of the history.
\<close>

theorem get_history_by_days_spec:
  "(base L st = (Some b, st1)
      \<and> list_all (converts L) (takeWhile (\<lambda>ht. \<not> stops L now start end' ht) (history b)) \<longrightarrow>
      get_history_by_days L now start end' st =
        (Inr (json_dumps (JList (map (id_time L)
                (filter (qualifies L now start end')
                   (takeWhile (\<lambda>ht. \<not> stops L now start end' ht) (history b)))))), st1))
   \<and> (base L st = (Some b, st1) \<and> history b = pre @ ht # post
      \<and> list_all (converts L) pre \<and> (\<forall>x\<in>set pre. \<not> stops L now start end' x)
      \<and> end_timestamp ht = Some t \<and> t \<noteq> 0 \<and> fromtimestamp L t = Inl err \<longrightarrow>
      get_history_by_days L now start end' st = (Inl err, st1))
   \<and> (base L st = (Some b, st1) \<and> list_all (converts L) (history b)
      \<and> oldest_last L now (history b) \<longrightarrow>
      get_history_by_days L now start end' st =
        (Inr (json_dumps (JList (map (id_time L)
                (filter (qualifies L now start end') (history b))))), st1))"
proof (intro conjI impI)
  assume a: "base L st = (Some b, st1)
      \<and> list_all (converts L) (takeWhile (\<lambda>ht. \<not> stops L now start end' ht) (history b))"
  then show "get_history_by_days L now start end' st =
        (Inr (json_dumps (JList (map (id_time L)
                (filter (qualifies L now start end')
                   (takeWhile (\<lambda>ht. \<not> stops L now start end' ht) (history b)))))), st1)"
    by (simp add: get_history_by_days_scan scan_filter_takeWhile)
next
  assume a: "base L st = (Some b, st1) \<and> history b = pre @ ht # post
      \<and> list_all (converts L) pre \<and> (\<forall>x\<in>set pre. \<not> stops L now start end' x)
      \<and> end_timestamp ht = Some t \<and> t \<noteq> 0 \<and> fromtimestamp L t = Inl err"
  then have "scan L now start end' (history b) = Inl err"
    using scan_raises [of L pre now start end' ht t err post] by simp
  with a show "get_history_by_days L now start end' st = (Inl err, st1)"
    by (simp add: get_history_by_days_scan)
next
  assume a: "base L st = (Some b, st1) \<and> list_all (converts L) (history b)
      \<and> oldest_last L now (history b)"
  then have "list_all (converts L)
      (takeWhile (\<lambda>ht. \<not> stops L now start end' ht) (history b))"
    by (simp add: list_all_takeWhile)
  with a show "get_history_by_days L now start end' st =
        (Inr (json_dumps (JList (map (id_time L)
                (filter (qualifies L now start end') (history b))))), st1)"
    by (simp add: get_history_by_days_scan scan_filter_takeWhile filter_takeWhile_sorted)
qed

lemma base_hist_lib:
  "base (hist_lib hs) init = (Some (fresh_base (hist_lib hs) True init),
                       init\<lparr>priv_base := Some (fresh_base (hist_lib hs) True init)\<rparr>)"
  by (rule base_unset) (simp add: init_def)

lemma history_hist_lib: "history (fresh_base (hist_lib hs) True init) = hs"
  by (simp add: fresh_base_transaction hist_lib_def)

lemma fromtimestamp_hist_lib: "fromtimestamp (hist_lib hs) t = Inr (t * 1000000)"
  by (simp add: hist_lib_def ex_lib_def)

lemma ages:
  "age (hist_lib hs) hist_now hist_old = 30" "age (hist_lib hs) hist_now hist_new = 5"
  "has_end hist_old" "has_end hist_new"
  "converts (hist_lib hs) hist_old" "converts (hist_lib hs) hist_new"
  by (simp_all add: age_def has_end_def converts_def delta_days_def hist_old_def
      hist_new_def hist_now_def fromtimestamp_hist_lib)

text \<open>
  C7 as stated ("exactly the qualifying transactions of the history list") fails on a
  history whose first entry is 30 days old and whose second is 5 days old: with
  \<^verbatim>\<open>start = 0\<close> and \<^verbatim>\<open>end = 10\<close> the scan stops at the first entry and returns the
  empty list, although the second entry qualifies.
\<close>

theorem get_history_by_days_stops_early:
  "fst (get_history_by_days (hist_lib [hist_old, hist_new]) hist_now 0 10 init) = Inr ''[]''
   \<and> hist_new \<in> set (history (DnfBase (hist_lib [hist_old, hist_new])))
   \<and> qualifies (hist_lib [hist_old, hist_new]) hist_now 0 10 hist_new"
proof -
  have s: "scan (hist_lib [hist_old, hist_new]) hist_now 0 10 [hist_old, hist_new] = Inr []"
    by (simp add: hist_old_def hist_new_def hist_now_def fromtimestamp_hist_lib
        delta_days_def)
  have "get_history_by_days (hist_lib [hist_old, hist_new]) hist_now 0 10 init =
     (Inr (json_dumps (JList [])),
      init\<lparr>priv_base := Some (fresh_base (hist_lib [hist_old, hist_new]) True init)\<rparr>)"
    using get_history_by_days_scan [OF base_hist_lib, of "[hist_old, hist_new]" hist_now 0 10]
    unfolding history_hist_lib s by simp
  moreover have "history (DnfBase (hist_lib [hist_old, hist_new])) = [hist_old, hist_new]"
    by (simp add: hist_lib_def)
  ultimately show ?thesis
    by (simp add: qualifies_def ages)
qed

lemma base_year_lib:
  "base (year_lib hs) init = (Some (fresh_base (year_lib hs) True init),
                       init\<lparr>priv_base := Some (fresh_base (year_lib hs) True init)\<rparr>)"
  by (rule base_unset) (simp add: init_def)

lemma history_year_lib: "history (fresh_base (year_lib hs) True init) = hs"
  by (simp add: fresh_base_transaction year_lib_def hist_lib_def)

theorem get_history_by_days_witness:
  "list_all (converts (hist_lib [hist_new, hist_old])) [hist_new, hist_old]
   \<and> oldest_last (hist_lib [hist_new, hist_old]) hist_now [hist_new, hist_old]
   \<and> fst (get_history_by_days (hist_lib [hist_new, hist_old]) hist_now 0 10 init) =
       Inr (json_dumps (JList [JList [JInt 1, JStr ''3160000000000'']]))
   \<and> fromtimestamp (year_lib [hist_far, hist_new]) 253402300800 = Inl ValueError
   \<and> fst (get_history_by_days (year_lib [hist_far, hist_new]) hist_now 0 10 init) =
       Inl ValueError"
proof -
  let ?L = "hist_lib [hist_new, hist_old]"
  let ?Y = "year_lib [hist_far, hist_new]"
  have c: "list_all (converts ?L) (history (fresh_base ?L True init))"
    by (simp add: history_hist_lib ages)
  have o: "oldest_last ?L hist_now (history (fresh_base ?L True init))"
    by (simp add: history_hist_lib oldest_last_def ages)
  have i: "id_time ?L hist_new = JList [JInt 1, JStr ''3160000000000'']"
    by (simp add: id_time_def hist_new_def hist_lib_def ex_lib_def str_int_def
        str_nat.simps digit_chars_def)
  have f: "filter (qualifies ?L hist_now 0 10) [hist_new, hist_old] = [hist_new]"
    by (simp add: qualifies_def ages)
  have y: "fromtimestamp ?Y 253402300800 = Inl ValueError"
    by (simp add: year_lib_def year_fromtimestamp_def)
  have e: "end_timestamp hist_far = Some 253402300800" by (simp add: hist_far_def)
  have 1: "fst (get_history_by_days ?L hist_now 0 10 init) =
       Inr (json_dumps (JList [JList [JInt 1, JStr ''3160000000000'']]))"
  proof -
    from get_history_by_days_spec [of ?L init "fresh_base ?L True init"
        "init\<lparr>priv_base := Some (fresh_base ?L True init)\<rparr>" hist_now 0 10]
    have "base ?L init = (Some (fresh_base ?L True init),
            init\<lparr>priv_base := Some (fresh_base ?L True init)\<rparr>)
        \<and> list_all (converts ?L) (history (fresh_base ?L True init))
        \<and> oldest_last ?L hist_now (history (fresh_base ?L True init)) \<longrightarrow>
      get_history_by_days ?L hist_now 0 10 init =
        (Inr (json_dumps (JList (map (id_time ?L)
                (filter (qualifies ?L hist_now 0 10)
                   (history (fresh_base ?L True init)))))),
         init\<lparr>priv_base := Some (fresh_base ?L True init)\<rparr>)"
      by blast
    with c o base_hist_lib [of "[hist_new, hist_old]"]
    have "get_history_by_days ?L hist_now 0 10 init =
        (Inr (json_dumps (JList (map (id_time ?L)
                (filter (qualifies ?L hist_now 0 10)
                   (history (fresh_base ?L True init)))))),
         init\<lparr>priv_base := Some (fresh_base ?L True init)\<rparr>)"
      by blast
    then show ?thesis unfolding history_hist_lib f by (simp add: i)
  qed
  have 2: "fst (get_history_by_days ?Y hist_now 0 10 init) = Inl ValueError"
  proof -
    from get_history_by_days_spec [of ?Y init "fresh_base ?Y True init"
        "init\<lparr>priv_base := Some (fresh_base ?Y True init)\<rparr>" hist_now 0 10
        "[]" hist_far "[hist_new]" 253402300800 ValueError]
    have "base ?Y init = (Some (fresh_base ?Y True init),
            init\<lparr>priv_base := Some (fresh_base ?Y True init)\<rparr>)
        \<and> history (fresh_base ?Y True init) = [] @ hist_far # [hist_new]
        \<and> list_all (converts ?Y) []
        \<and> (\<forall>x\<in>set []. \<not> stops ?Y hist_now 0 10 x)
        \<and> end_timestamp hist_far = Some 253402300800 \<and> (253402300800::int) \<noteq> 0
        \<and> fromtimestamp ?Y 253402300800 = Inl ValueError \<longrightarrow>
      get_history_by_days ?Y hist_now 0 10 init =
        (Inl ValueError, init\<lparr>priv_base := Some (fresh_base ?Y True init)\<rparr>)"
      by blast
    moreover have "history (fresh_base ?Y True init) = [] @ hist_far # [hist_new]"
      by (simp add: history_year_lib)
    moreover have "list_all (converts ?Y) []" by simp
    moreover have "\<forall>x\<in>set []. \<not> stops ?Y hist_now 0 10 x" by simp
    moreover have "(253402300800::int) \<noteq> 0" by simp
    ultimately have "get_history_by_days ?Y hist_now 0 10 init =
        (Inl ValueError, init\<lparr>priv_base := Some (fresh_base ?Y True init)\<rparr>)"
      using base_year_lib [of "[hist_far, hist_new]"] y e by blast
    then show ?thesis by simp
  qed
  from c o 1 2 y show ?thesis unfolding history_hist_lib by blast
qed

text \<open>
  The age is read on the local wall clock. In the time zone Europe/Berlin a transaction
  that ended at 12:00 on 25 March 2023 is, at 12:00 on 26 March 2023, one day old,
  although only \<open>82800\<close> seconds have passed (the clock went forward by an hour in
  between): \<^verbatim>\<open>get_history_by_days(0, 0)\<close> does not return it.
\<close>

lemma get_history_by_days_clock_change:
  "age berlin_lib berlin_now hist_berlin = 1
   \<and> fst (get_history_by_days berlin_lib berlin_now 0 0 init) = Inr ''[]''"
proof -
  have b: "base berlin_lib init = (Some (fresh_base berlin_lib True init),
      init\<lparr>priv_base := Some (fresh_base berlin_lib True init)\<rparr>)"
    by (rule base_unset) (simp add: init_def)
  have h: "history (fresh_base berlin_lib True init) = [hist_berlin]"
    by (simp add: fresh_base_transaction berlin_lib_def hist_lib_def)
  have f: "fromtimestamp berlin_lib 1679742000 = Inr 1679745600000000"
    by (simp add: berlin_lib_def berlin_fromtimestamp_def)
  have s: "scan berlin_lib berlin_now 0 0 [hist_berlin] = Inr []"
    by (simp add: hist_berlin_def f berlin_now_def delta_days_def)
  have a: "age berlin_lib berlin_now hist_berlin = 1"
    by (simp add: age_def hist_berlin_def f berlin_now_def delta_days_def)
  have "get_history_by_days berlin_lib berlin_now 0 0 init =
     (Inr (json_dumps (JList [])),
      init\<lparr>priv_base := Some (fresh_base berlin_lib True init)\<rparr>)"
    using get_history_by_days_scan [OF b, of berlin_now 0 0]
    unfolding h s by simp
  with a show ?thesis by simp
qed

subsection \<open>The current transaction\<close>

lemma tx_get_map_entry:
  "tx_get (AList.map_entry k f al) k' =
     (if k' = k \<and> map_of al k \<noteq> None then f (tx_get al k) else tx_get al k')"
  by (auto simp: tx_get_def map_of_map_entry split: option.splits)

lemma map_entry_present:
  "map_of (AList.map_entry k f al) k' \<noteq> None \<longleftrightarrow> map_of al k' \<noteq> None"
  by (cases "map_of al k") (simp_all add: map_of_map_entry)

lemma has_keys_map_entry: "has_keys al \<Longrightarrow> has_keys (AList.map_entry k f al)"
  unfolding has_keys_def map_entry_present .

lemma sort_tsis_get:
  "has_keys al \<Longrightarrow>
   tx_get (sort_tsis tsis al) k = tx_get al k @ filter (\<lambda>t. tx_key (op_type t) = k) tsis"
proof (induction tsis arbitrary: al)
  case Nil
  then show ?case by simp
next
  case (Cons tsi rest)
  define al' where "al' = AList.map_entry (tx_key (op_type tsi)) (\<lambda>l. l @ [tsi]) al"
  have hk: "has_keys al'"
    unfolding al'_def using Cons.prems by (rule has_keys_map_entry)
  have present: "map_of al (tx_key (op_type tsi)) \<noteq> None"
    using Cons.prems by (cases "op_type tsi") (simp_all add: has_keys_def tx_key_def)
  have step: "tx_get al' k = tx_get al k @ (if tx_key (op_type tsi) = k then [tsi] else [])"
    unfolding al'_def using present by (auto simp: tx_get_map_entry)
  have "sort_tsis (tsi # rest) al = sort_tsis rest al'"
    unfolding al'_def by (cases "op_type tsi") (simp_all add: tx_key_def)
  then show ?case
    using Cons.IH [OF hk] step by simp
qed

lemma tx_get_init: "tx_get tx_list_init k = []"
  by (simp add: tx_get_def tx_list_init_def)

lemma has_keys_init: "has_keys tx_list_init"
  by (simp add: has_keys_def tx_list_init_def)

lemma sort_tsis_init:
  "tx_get (sort_tsis tsis tx_list_init) k = filter (\<lambda>t. tx_key (op_type t) = k) tsis"
  by (simp add: sort_tsis_get has_keys_init tx_get_init)

lemma tx_key_filters:
  "filter (\<lambda>t. tx_key (op_type t) = ''install'') tsis = filter (\<lambda>t. op_type t = INSTALL) tsis"
  "filter (\<lambda>t. tx_key (op_type t) = ''update'') tsis = filter (\<lambda>t. op_type t = UPGRADE) tsis"
  "filter (\<lambda>t. tx_key (op_type t) = ''remove'') tsis = filter (\<lambda>t. op_type t = ERASE) tsis"
  "filter (\<lambda>t. tx_key (op_type t) = ''reinstall'') tsis = filter (\<lambda>t. op_type t = REINSTALL) tsis"
  "filter (\<lambda>t. tx_key (op_type t) = ''downgrade'') tsis = filter (\<lambda>t. op_type t = DOWNGRADE) tsis"
proof -
  have k: "\<And>t. (tx_key (op_type t) = ''install'') = (op_type t = INSTALL)"
    "\<And>t. (tx_key (op_type t) = ''update'') = (op_type t = UPGRADE)"
    "\<And>t. (tx_key (op_type t) = ''remove'') = (op_type t = ERASE)"
    "\<And>t. (tx_key (op_type t) = ''reinstall'') = (op_type t = REINSTALL)"
    "\<And>t. (tx_key (op_type t) = ''downgrade'') = (op_type t = DOWNGRADE)"
    by (case_tac [!] "op_type t") (simp_all add: tx_key_def)
  show "filter (\<lambda>t. tx_key (op_type t) = ''install'') tsis = filter (\<lambda>t. op_type t = INSTALL) tsis"
    "filter (\<lambda>t. tx_key (op_type t) = ''update'') tsis = filter (\<lambda>t. op_type t = UPGRADE) tsis"
    "filter (\<lambda>t. tx_key (op_type t) = ''remove'') tsis = filter (\<lambda>t. op_type t = ERASE) tsis"
    "filter (\<lambda>t. tx_key (op_type t) = ''reinstall'') tsis = filter (\<lambda>t. op_type t = REINSTALL) tsis"
    "filter (\<lambda>t. tx_key (op_type t) = ''downgrade'') tsis = filter (\<lambda>t. op_type t = DOWNGRADE) tsis"
    by (simp_all only: k)
qed

lemma build_sublist_render:
  "active_present l \<Longrightarrow> build_sublist l sublist = Inr (sublist @ map render l)"
  by (induction l arbitrary: sublist)
     (auto simp: active_present_def render_def Let_def comp_def)

lemma build_tree_groups:
  "\<forall>p\<in>set pairs. active_present (snd p) \<Longrightarrow>
   build_tree pairs out_list [] =
     Inr (out_list @ concat (map (\<lambda>p. if snd p = [] then []
                                       else [JList [JStr (fst p), JList (map render (snd p))]]) pairs))"
proof (induction pairs arbitrary: out_list)
  case Nil
  then show ?case by simp
next
  case (Cons p pairs)
  obtain action pkglist where p: "p = (action, pkglist)" by (cases p)
  from Cons.prems p have a: "active_present pkglist" by simp
  from Cons.prems have r: "\<forall>p\<in>set pairs. active_present (snd p)" by simp
  show ?case
    by (simp add: p build_sublist_render [OF a] Cons.IH [OF r])
qed

lemma active_present_filter: "active_present l \<Longrightarrow> active_present (filter P l)"
  by (induction l) (auto simp: active_present_def)

lemma action_tree_sorted:
  assumes "active_present tsis"
  shows "action_tree (sort_tsis tsis tx_list_init) = Inr (grouped tsis)"
proof -
  let ?pairs = "map (\<lambda>ao. (fst ao, filter (\<lambda>t. op_type t = snd ao) tsis)) action_order"
  have p: "\<forall>p\<in>set ?pairs. active_present (snd p)"
    using active_present_filter [OF assms] by simp
  have "action_tree (sort_tsis tsis tx_list_init) = build_tree ?pairs [] []"
    by (simp add: action_tree_def sort_tsis_init tx_key_filters action_order_def)
  also have "\<dots> = Inr ([] @ concat (map (\<lambda>p. if snd p = [] then []
                  else [JList [JStr (fst p), JList (map render (snd p))]]) ?pairs))"
    using p by (rule build_tree_groups)
  also have "\<dots> = Inr (grouped tsis)"
    by (simp add: grouped_def action_group_def [abs_def] comp_def cong: if_cong)
  finally show ?thesis .
qed

lemma action_tree_init: "action_tree tx_list_init = Inr []"
  by (simp add: action_tree_def tx_get_init)

lemma grouped_Nil: "grouped [] = []"
  by (simp add: grouped_def action_group_def action_order_def)

lemma group_empty_iff: "action_group tsis ao = [] \<longleftrightarrow> filter (\<lambda>t. op_type t = snd ao) tsis = []"
  by (simp add: action_group_def)

lemma action_order_total: "\<exists>a. (a, op) \<in> set action_order"
  by (cases op) (simp_all add: action_order_def)

lemma grouped_empty_iff: "grouped tsis = [] \<longleftrightarrow> tsis = []"
proof
  assume g: "grouped tsis = []"
  show "tsis = []"
  proof (rule ccontr)
    assume "tsis \<noteq> []"
    then obtain t where t: "t \<in> set tsis" by (cases tsis) auto
    from action_order_total obtain a where a: "(a, op_type t) \<in> set action_order" by blast
    from g a have "action_group tsis (a, op_type t) = []"
      by (auto simp: grouped_def)
    then have "filter (\<lambda>x. op_type x = op_type t) tsis = []"
      by (simp add: group_empty_iff)
    with t show False by (auto simp: filter_empty_conv)
  qed
next
  assume "tsis = []"
  then show "grouped tsis = []" by (simp add: grouped_Nil)
qed

lemma group_actions:
  "map (\<lambda>g. case g of JList (a # _) \<Rightarrow> a | _ \<Rightarrow> JNone) (concat (map (action_group tsis) aos)) =
   map (JStr \<circ> fst) (filter (\<lambda>ao. \<exists>t \<in> set tsis. op_type t = snd ao) aos)"
  by (induction aos) (auto simp: action_group_def filter_empty_conv)

lemma priv_get_transaction_result:
  assumes b: "base L st = (Some b, st1)" and a: "active_present (tsis_of b)"
  shows "priv_get_transaction L st = (Inr (grouped (tsis_of b)), st1)"
proof (cases "transaction b")
  case None
  then show ?thesis
    by (simp add: priv_get_transaction_def with_base_some [OF b] action_tree_init
        tsis_of_def grouped_Nil)
next
  case (Some tsis)
  have b1: "base L st1 = (Some b, st1)" using b by (rule base_again)
  from a Some have a': "active_present tsis" by (simp add: tsis_of_def)
  show ?thesis
  proof (cases "tsis = []")
    case True
    with Some show ?thesis
      by (simp add: priv_get_transaction_def with_base_some [OF b] action_tree_init
          tsis_of_def grouped_Nil)
  next
    case False
    with Some show ?thesis
      by (simp add: priv_get_transaction_def with_base_some [OF b] with_base_some [OF b1]
          action_tree_sorted [OF a'] tsis_of_def)
  qed
qed

text \<open>
  C2. With every item of the transaction carrying its active package,
  \<^verbatim>\<open>get_transaction\<close> returns the serialisation of the pair \<^verbatim>\<open>(rc, trans)\<close>, where
  \<^verbatim>\<open>rc\<close> is \<^verbatim>\<open>True\<close> exactly when the transaction of the handle has an item (it has
  none before the goal is resolved), and \<^verbatim>\<open>trans\<close> lists, for the actions install,
  update, remove, reinstall and downgrade in this order, each action that has an item,
  with its items in transaction order, every item as the triple of the id of its active
  package, its size as a float and the ids of the packages it obsoletes. The second part
  spells out which actions are listed.
\<close>

theorem get_transaction_spec:
  assumes "base L st = (Some b, st1)" and "active_present (tsis_of b)"
  shows "get_transaction L st =
           (Inr (json_dumps (JList [JBool (tsis_of b \<noteq> []), JList (grouped (tsis_of b))])), st1)
    \<and> map (\<lambda>g. case g of JList (a # _) \<Rightarrow> a | _ \<Rightarrow> JNone) (grouped (tsis_of b)) =
        map (JStr \<circ> fst)
          (filter (\<lambda>ao. \<exists>t \<in> set (tsis_of b). op_type t = snd ao) action_order)"
proof -
  have 1: "get_transaction L st =
           (Inr (json_dumps (JList [JBool (tsis_of b \<noteq> []), JList (grouped (tsis_of b))])), st1)"
    by (simp add: get_transaction_def priv_get_transaction_result [OF assms] grouped_empty_iff)
  have 2: "map (\<lambda>g. case g of JList (a # _) \<Rightarrow> a | _ \<Rightarrow> JNone) (grouped (tsis_of b)) =
        map (JStr \<circ> fst)
          (filter (\<lambda>ao. \<exists>t \<in> set (tsis_of b). op_type t = snd ao) action_order)"
    unfolding grouped_def by (rule group_actions)
  from 1 2 show ?thesis by simp
qed

theorem get_transaction_witness:
  "active_present (tsis_of tx_base)
   \<and> get_transaction ex_lib tx_state =
       (Inr (json_dumps (JList [JBool True,
            JList [JList [JStr ''install'',
                          JList [JList [JStr ''vim,2,9.1,3.fc40,x86_64,updates'',
                                        JFloat 2500, JList []]]],
                   JList [JStr ''remove'',
                          JList [JList [JStr ''bash,0,5.2,1.fc40,x86_64,@fedora'',
                                        JFloat 1900, JList []]]]]])), tx_state)"
proof -
  have b: "base ex_lib tx_state = (Some tx_base, tx_state)"
    by (rule base_set) (simp add: tx_state_def)
  have t: "tsis_of tx_base = [erase_bash, install_vim]"
    by (simp add: tsis_of_def tx_base_def)
  have a: "active_present (tsis_of tx_base)"
    by (simp add: t active_present_def priv_active_pkg_def erase_bash_def install_vim_def)
  have i: "priv_get_id vim_pkg = ''vim,2,9.1,3.fc40,x86_64,updates''"
    "priv_get_id bash_pkg = ''bash,0,5.2,1.fc40,x86_64,@fedora''"
    by (simp_all add: priv_get_id_def vim_pkg_def bash_pkg_def str_int_def str_nat.simps
        digit_chars_def)
  have r: "render install_vim =
             JList [JStr ''vim,2,9.1,3.fc40,x86_64,updates'', JFloat 2500, JList []]"
    "render erase_bash =
             JList [JStr ''bash,0,5.2,1.fc40,x86_64,@fedora'', JFloat 1900, JList []]"
    by (simp_all add: render_def priv_active_pkg_def install_vim_def erase_bash_def i)
       (simp_all add: vim_pkg_def bash_pkg_def)
  have o: "map op_type [erase_bash, install_vim] = [ERASE, INSTALL]"
    by (simp add: erase_bash_def install_vim_def)
  have g: "grouped [erase_bash, install_vim] =
       [JList [JStr ''install'', JList [render install_vim]],
        JList [JStr ''remove'', JList [render erase_bash]]]"
    using o by (simp add: grouped_def action_group_def action_order_def)
  show ?thesis
    using get_transaction_spec [OF b a] a by (simp only: t g r) simp
qed

subsection \<open>Running the transaction\<close>

lemma errmap_msgs_eq:
  "errmap_msgs m ks acc =
     acc @ concat (map (\<lambda>fn. map (\<lambda>msg. fn @ '' : '' @ msg)
                                (case map_of m fn of None \<Rightarrow> [] | Some l \<Rightarrow> l)) ks)"
  by (induction ks arbitrary: acc) simp_all

lemma errmap_msgs_dict:
  assumes "distinct (map fst m)"
  shows "errmap_msgs m (map fst m) [] = file_msgs m"
proof -
  have "\<And>e. e \<in> set m \<Longrightarrow> map_of m (fst e) = Some (snd e)"
    using assms by simp
  then have eq: "map (\<lambda>e. map (\<lambda>msg. fst e @ '' : '' @ msg)
                       (case map_of m (fst e) of None \<Rightarrow> [] | Some l \<Rightarrow> l)) m =
             map (\<lambda>e. map (\<lambda>msg. fst e @ '' : '' @ msg) (snd e)) m"
    by (intro map_cong) simp_all
  have "errmap_msgs m (map fst m) [] =
          concat (map (\<lambda>e. map (\<lambda>msg. fst e @ '' : '' @ msg)
                       (case map_of m (fst e) of None \<Rightarrow> [] | Some l \<Rightarrow> l)) m)"
    unfolding errmap_msgs_eq by (simp only: map_map comp_def append_Nil)
  also have "\<dots> = file_msgs m"
    unfolding file_msgs_def by (rule arg_cong [OF eq])
  finally show ?thesis .
qed

lemma packages_to_download_resolved:
  "base L st = (Some b, st1) \<Longrightarrow> transaction b = Some tsis \<Longrightarrow>
   priv_get_packages_to_download L st = (Inr (installed_pkgs tsis []), st1)"
  by (simp add: priv_get_packages_to_download_def with_base_some)

lemma packages_to_download_unresolved:
  "base L st = (Some b, st1) \<Longrightarrow> transaction b = None \<Longrightarrow>
   priv_get_packages_to_download L st = (Inl TypeError, st1)"
  by (simp add: priv_get_packages_to_download_def with_base_some)

lemma check_gpg_signatures_ends:
  "fst (priv_check_gpg_signatures L pkgs st) = Inr 0 \<or>
   (\<exists>text. fst (priv_check_gpg_signatures L pkgs st) = Inl (GPGError text))"
proof (induction pkgs arbitrary: st)
  case Nil
  then show ?case by simp
next
  case (Cons po rest)
  obtain b st1 where b: "base L st = (Some b, st1)" using base_some by blast
  obtain result errmsg where s: "sig_check_pkg L b po = (result, errmsg)"
    by (cases "sig_check_pkg L b po")
  obtain k st2 where k: "get_key_for_package L po priv_handle_gpg_import st1 = (k, st2)"
    by (cases "get_key_for_package L po priv_handle_gpg_import st1")
  show ?case
    using Cons.IH [of st1] Cons.IH [of st2]
    by (cases k) (simp_all add: b s k)
qed

lemma run_rpm_ends:
  "fst (run_rpm L st) = None \<or> (\<exists>e. fst (run_rpm L st) = Some (Dnf e))"
proof -
  let ?st7 = "(signal (TransactionEvent ''run-transaction'' (JStr NONE)) st)\<lparr>priv_can_quit := False\<rparr>"
  obtain b st8 where b: "base L ?st7 = (Some b, st8)" using base_some by blast
  show ?thesis
    by (cases "do_transaction L b") (simp_all add: run_rpm_def Let_def b)
qed

lemma run_body_ends:
  "fst (run_body L to_dnl st) = None \<or>
   (\<exists>text. fst (run_body L to_dnl st) = Some (GPGError text)) \<or>
   (\<exists>e. fst (run_body L to_dnl st) = Some (Dnf e))"
proof (cases "to_dnl = []")
  case True
  then show ?thesis using run_rpm_ends [of L st] by (auto simp: run_body_def)
next
  case False
  let ?st2 = "signal (TransactionEvent ''download'' (JStr NONE))
               (signal (TransactionEvent ''pkg-to-download'' (JList (map JStr (map priv_get_id to_dnl)))) st)"
  obtain b st3 where b: "base L ?st2 = (Some b, st3)" using base_some by blast
  show ?thesis
  proof (cases "download_packages L b to_dnl")
    case (Some err)
    with False b show ?thesis by (simp add: run_body_def Let_def)
  next
    case None
    let ?st4 = "signal (TransactionEvent ''signature-check'' (JStr NONE)) st3"
    obtain c st5 where c: "priv_check_gpg_signatures L to_dnl ?st4 = (c, st5)"
      by (cases "priv_check_gpg_signatures L to_dnl ?st4")
    from check_gpg_signatures_ends [of L to_dnl ?st4] c
    consider "c = Inr 0" | msg where "c = Inl (GPGError msg)" by auto
    then show ?thesis
    proof cases
      case 1
      with False b None c show ?thesis
        using run_rpm_ends [of L st5] by (auto simp: run_body_def Let_def)
    next
      case 2
      with False b None c show ?thesis by (simp add: run_body_def Let_def)
    qed
  qed
qed

lemma run_body_download_raises:
  assumes "to_dnl \<noteq> []"
    and "base L (signal (TransactionEvent ''download'' (JStr NONE))
           (signal (TransactionEvent ''pkg-to-download''
              (JList (map JStr (map priv_get_id to_dnl)))) st)) = (Some b, st3)"
    and "download_packages L b to_dnl = Some e"
  shows "run_body L to_dnl st = (Some (Dnf e), st3)"
  using assms by (simp add: run_body_def Let_def)

lemma check_gpg_bad_signature:
  assumes "base L st = (Some b, st1)" and "sig_check_pkg L b po = (result, errmsg)"
    and "result \<noteq> 0" and "result \<noteq> 1"
  shows "priv_check_gpg_signatures L (po # rest) st = (Inl (GPGError errmsg), st1)"
  using assms by simp

lemma check_gpg_key_refused:
  assumes "base L st = (Some b, st1)" and "sig_check_pkg L b po = (1, errmsg)"
    and "get_key_for_package L po priv_handle_gpg_import st1 = (Some msg, st2)"
  shows "priv_check_gpg_signatures L (po # rest) st = (Inl (GPGError msg), st2)"
  using assms by simp

lemma outcome_run_body: "outcome (fst (run_body L to_dnl st)) \<noteq> None"
proof -
  have "\<And>e. outcome (Some (Dnf e)) \<noteq> None"
  proof -
    fix e show "outcome (Some (Dnf e)) \<noteq> None"
    proof (cases e)
      case (DownloadError m t)
      then show ?thesis by (cases m) simp_all
    next
      case (Error t)
      then show ?thesis by simp
    qed
  qed
  then show ?thesis using run_body_ends [of L to_dnl st] by auto
qed

lemma run_transaction_result:
  assumes b: "base L (signal (TransactionEvent ''start-run'' (JStr NONE)) st) = (Some b, st2)"
    and t: "transaction b = Some tsis"
    and r: "run_body L (installed_pkgs tsis []) st2 = (e, st3)"
    and d: "dict_errmap e"
    and oc: "outcome e = Some (rc, msgs)"
  shows "run_transaction L st = finished rc msgs st3"
proof -
  have p: "priv_get_packages_to_download L (signal (TransactionEvent ''start-run'' (JStr NONE)) st)
           = (Inr (installed_pkgs tsis []), st2)"
    using b t by (rule packages_to_download_resolved)
  show ?thesis
  proof (cases e)
    case None
    with oc show ?thesis by (auto simp: run_transaction_def Let_def p r finished_def)
  next
    case (Some err)
    show ?thesis
    proof (cases err)
      case (GPGError msg)
      with Some oc show ?thesis by (auto simp: run_transaction_def Let_def p r finished_def)
    next
      case (Dnf de)
      show ?thesis
      proof (cases de)
        case (Error msg)
        with Some Dnf oc show ?thesis by (auto simp: run_transaction_def Let_def p r finished_def)
      next
        case (DownloadError m msg)
        show ?thesis
        proof (cases m)
          case None
          with Some Dnf DownloadError oc show ?thesis
            by (auto simp: run_transaction_def Let_def p r finished_def)
        next
          case (Some errmap)
          with \<open>e = Some err\<close> Dnf DownloadError d have "distinct (map fst errmap)"
            by (simp add: dict_errmap_def)
          then have "errmap_msgs errmap (map fst errmap) [] = file_msgs errmap"
            by (rule errmap_msgs_dict)
          with Some \<open>e = Some err\<close> Dnf DownloadError oc show ?thesis
            by (auto simp: run_transaction_def Let_def p r finished_def)
        qed
      qed
    qed (insert Some oc, simp_all)
  qed
qed

text \<open>
  C1, as the code has it. When the transaction of the handle is resolved (not
  \<^verbatim>\<open>None\<close>), \<^verbatim>\<open>run_transaction\<close> returns the serialisation of a pair
  \<^verbatim>\<open>(rc, msgs)\<close>, with \<^verbatim>\<open>_can_quit\<close> set, the handle reset and the event \<^verbatim>\<open>end-run\<close>
  sent. The pair is decided by the exception the \<^verbatim>\<open>try\<close> statement ends with, and
  every such exception is caught: none gives \<open>(0, [])\<close>; a download error gives \<open>4\<close>
  with, for an error map, one string \<^verbatim>\<open>filename : message\<close> for every message of
  every file name of the map, in the order of the map, and with the text of the error
  when there is no map; a GPG error gives \<open>1\<close> and its text; any other error of the
  library gives \<open>2\<close> and its text.
\<close>

theorem run_transaction_spec:
  assumes "base L (signal (TransactionEvent ''start-run'' (JStr NONE)) st) = (Some b, st2)"
    and "transaction b = Some tsis"
    and "dict_errmap (fst (run_body L (installed_pkgs tsis []) st2))"
  shows "\<exists>rc msgs.
      outcome (fst (run_body L (installed_pkgs tsis []) st2)) = Some (rc, msgs)
    \<and> run_transaction L st =
        (Inr (json_dumps (JList [JInt rc, JList (map JStr msgs)])),
         signal (TransactionEvent ''end-run'' (JStr NONE))
           (priv_reset_base (snd (run_body L (installed_pkgs tsis []) st2)\<lparr>priv_can_quit := True\<rparr>)))"
proof -
  obtain rc msgs where oc: "outcome (fst (run_body L (installed_pkgs tsis []) st2)) = Some (rc, msgs)"
    using outcome_run_body [of L "installed_pkgs tsis []" st2] by auto
  have r: "run_body L (installed_pkgs tsis []) st2 =
     (fst (run_body L (installed_pkgs tsis []) st2), snd (run_body L (installed_pkgs tsis []) st2))"
    by simp
  from run_transaction_result [OF assms(1,2) r assms(3) oc] oc show ?thesis
    by (simp add: finished_def)
qed


lemma start_run_tx_state:
  "base L (signal (TransactionEvent ''start-run'' (JStr NONE)) tx_state) =
     (Some tx_base, signal (TransactionEvent ''start-run'' (JStr NONE)) tx_state)"
  by (rule base_set) (simp add: signal_def tx_state_def)

lemma transaction_tx_base: "transaction tx_base = Some [erase_bash, install_vim]"
  by (simp add: tx_base_def)

lemma to_dnl_tx_base: "installed_pkgs [erase_bash, install_vim] [] = [vim_pkg]"
  by (simp add: erase_bash_def install_vim_def)

lemma run_body_ex_lib:
  "fst (run_body ex_lib [vim_pkg]
          (signal (TransactionEvent ''start-run'' (JStr NONE)) tx_state)) = None"
  by (simp add: run_body_def run_rpm_def Let_def signal_def base_def tx_state_def ex_lib_def)

lemma run_body_failing_lib:
  "run_body failing_lib [vim_pkg]
          (signal (TransactionEvent ''start-run'' (JStr NONE)) tx_state) =
     (Some (Dnf (DownloadError (Some [(''vim.rpm'', [''timeout'', ''bad checksum''])])
                   ''download failed'')),
      signal (TransactionEvent ''download'' (JStr NONE))
        (signal (TransactionEvent ''pkg-to-download'' (JList [JStr (priv_get_id vim_pkg)]))
           (signal (TransactionEvent ''start-run'' (JStr NONE)) tx_state)))"
  by (simp add: run_body_def Let_def signal_def base_def tx_state_def failing_lib_def)

theorem run_transaction_witness:
  "transaction tx_base = Some [erase_bash, install_vim]
   \<and> dict_errmap (fst (run_body ex_lib (installed_pkgs [erase_bash, install_vim] [])
                          (signal (TransactionEvent ''start-run'' (JStr NONE)) tx_state)))
   \<and> fst (run_transaction ex_lib tx_state) = Inr ''[0, []]''"
proof -
  have d: "dict_errmap (fst (run_body ex_lib (installed_pkgs [erase_bash, install_vim] [])
                          (signal (TransactionEvent ''start-run'' (JStr NONE)) tx_state)))"
    by (simp only: to_dnl_tx_base run_body_ex_lib) (simp add: dict_errmap_def)
  from run_transaction_spec [OF start_run_tx_state transaction_tx_base d]
  have "fst (run_transaction ex_lib tx_state) = Inr (json_dumps (JList [JInt 0, JList []]))"
    unfolding to_dnl_tx_base run_body_ex_lib by auto
  then have "fst (run_transaction ex_lib tx_state) = Inr ''[0, []]''"
    by (simp add: str_int_def str_nat.simps digit_chars_def)
  with d transaction_tx_base show ?thesis by simp
qed

text \<open>
  C1 as stated fails in two places. "Always returns": on a new daemon the handle has no
  resolved transaction, and \<^verbatim>\<open>_get_packages_to_download\<close>, which runs before the
  \<^verbatim>\<open>try\<close>, raises \<^verbatim>\<open>TypeError\<close>. "One string per entry of the error map": a
  download error whose map has the single entry \<^verbatim>\<open>vim.rpm\<close> with two messages gives
  two strings.
\<close>

theorem run_transaction_fails:
  "fst (run_transaction ex_lib init) = Inl TypeError
   \<and> download_packages failing_lib tx_base [vim_pkg] =
       Some (DownloadError (Some [(''vim.rpm'', [''timeout'', ''bad checksum''])])
               ''download failed'')
   \<and> fst (run_transaction failing_lib tx_state) =
       Inr (json_dumps (JList [JInt 4, JList [JStr ''vim.rpm : timeout'',
                                              JStr ''vim.rpm : bad checksum'']]))"
proof -
  let ?st1 = "signal (TransactionEvent ''start-run'' (JStr NONE)) init"
  have n: "priv_base ?st1 = None" by (simp add: signal_def init_def)
  have t: "transaction (fresh_base ex_lib True ?st1) = None"
    by (simp add: fresh_base_transaction ex_lib_def ex_base_def)
  have "priv_get_packages_to_download ex_lib ?st1 =
          (Inl TypeError, ?st1\<lparr>priv_base := Some (fresh_base ex_lib True ?st1)\<rparr>)"
    using base_unset [OF n] t by (rule packages_to_download_unresolved)
  then have a: "fst (run_transaction ex_lib init) = Inl TypeError"
    by (simp add: run_transaction_def Let_def)
  have b: "download_packages failing_lib tx_base [vim_pkg] =
       Some (DownloadError (Some [(''vim.rpm'', [''timeout'', ''bad checksum''])])
               ''download failed'')"
    by (simp add: failing_lib_def)
  have o: "outcome (Some (Dnf (DownloadError (Some [(''vim.rpm'', [''timeout'', ''bad checksum''])])
                   ''download failed''))) =
           Some (4, [''vim.rpm : timeout'', ''vim.rpm : bad checksum''])"
    by (simp add: file_msgs_def)
  have r: "run_body failing_lib (installed_pkgs [erase_bash, install_vim] [])
          (signal (TransactionEvent ''start-run'' (JStr NONE)) tx_state) =
     (Some (Dnf (DownloadError (Some [(''vim.rpm'', [''timeout'', ''bad checksum''])])
                   ''download failed'')),
      signal (TransactionEvent ''download'' (JStr NONE))
        (signal (TransactionEvent ''pkg-to-download'' (JList [JStr (priv_get_id vim_pkg)]))
           (signal (TransactionEvent ''start-run'' (JStr NONE)) tx_state)))"
    by (simp only: to_dnl_tx_base run_body_failing_lib)
  have d: "dict_errmap (Some (Dnf (DownloadError (Some [(''vim.rpm'', [''timeout'', ''bad checksum''])])
                   ''download failed'')))"
    by (simp add: dict_errmap_def)
  have c: "fst (run_transaction failing_lib tx_state) =
       Inr (json_dumps (JList [JInt 4, JList [JStr ''vim.rpm : timeout'',
                                              JStr ''vim.rpm : bad checksum'']]))"
    using run_transaction_result [OF start_run_tx_state transaction_tx_base r d o]
    by (simp add: finished_def)
  from a b c show ?thesis by simp
qed

subsection \<open>The sack stays loaded\<close>

text \<open>
  The operations keep the condition under which the lookups above are stated: it holds
  after \<^verbatim>\<open>__init__\<close> and every operation below re-establishes it.
\<close>

lemma sack_loaded_reset_base: "sack_loaded (priv_reset_base st)"
  by (simp add: sack_loaded_def priv_reset_base_fields)

lemma sack_loaded_set_enabled_repos: "sack_loaded (snd (set_enabled_repos L repo_ids st))"
  by (simp add: set_enabled_repos_result sack_loaded_def setup_base_fields)

lemma sack_loaded_watchdog: "sack_loaded st \<Longrightarrow> sack_loaded (snd (priv_watchdog st))"
  by (auto simp: priv_watchdog_def Let_def sack_loaded_def mainloop_quit_def
      priv_reset_base_def split: option.splits)

lemma sack_loaded_set_option:
  assumes "sack_loaded st"
  shows "sack_loaded (snd (set_option_cfg L option val st))"
proof (cases "loads L val")
  case None
  then show ?thesis using assms by (simp add: set_option_cfg_def)
next
  case (Some v)
  let ?st0 = "st\<lparr>priv_config_options := AList.update option v (priv_config_options st)\<rparr>"
  have "sack_loaded ?st0" using assms by (simp add: sack_loaded_def)
  from sack_loaded_base [OF this, of L] obtain b st1 q
    where b: "base L ?st0 = (Some b, st1)" and q: "sack b = Some q" and l: "sack_loaded st1"
    by blast
  show ?thesis
    using q l by (simp add: set_option_result [OF Some b] sack_loaded_def)
qed

lemma sack_loaded_get_po:
  "sack_loaded st \<Longrightarrow> sack_loaded (snd (priv_get_po L ident st))"
  using sack_loaded_base [of st L]
  by (auto simp: priv_get_po_def sack_query_def Let_def split: list.splits)

end
